theory Spec2Isabelle
  imports Main "HOL-Library.Word" "HOL-Library.AList"
begin

section \<open>Strings of the source language\<close>

text \<open>
  A string of the source is a sequence of UTF-16 code units. Literals of the source that
  are plain ASCII are written with \<open>ascii\<close>; the others are spelled out code unit by
  code unit.
\<close>

type_synonym cu = "16 word"
type_synonym jsstring = "cu list"

definition ascii :: "string \<Rightarrow> jsstring" where
  "ascii s = map of_char s"

text \<open>Truthiness of a string (\<open>Boolean(s)\<close>, \<open>s || d\<close>, \<open>if (s)\<close>): non-empty.\<close>

definition truthy :: "jsstring \<Rightarrow> bool" where
  "truthy s = (s \<noteq> [])"

text \<open>\<open>x || d\<close> for an optional string \<open>x\<close>: \<open>undefined\<close> and \<open>''\<close> are falsy.\<close>

definition or_else :: "jsstring option \<Rightarrow> jsstring \<Rightarrow> jsstring" where
  "or_else x d = (case x of None \<Rightarrow> d | Some s \<Rightarrow> (if truthy s then s else d))"

definition truthy_opt :: "jsstring option \<Rightarrow> bool" where
  "truthy_opt x = (case x of None \<Rightarrow> False | Some s \<Rightarrow> truthy s)"

text \<open>
  \<open>String.prototype.trim\<close> removes the white space and line terminator code units of
  the language standard from both ends.
\<close>

definition is_space :: "cu \<Rightarrow> bool" where
  "is_space c = (c \<in> set [0x0009, 0x000A, 0x000B, 0x000C, 0x000D, 0x0020, 0x00A0, 0x1680,
     0x2000, 0x2001, 0x2002, 0x2003, 0x2004, 0x2005, 0x2006, 0x2007, 0x2008, 0x2009, 0x200A,
     0x2028, 0x2029, 0x202F, 0x205F, 0x3000, 0xFEFF])"

definition trim :: "jsstring \<Rightarrow> jsstring" where
  "trim s = rev (dropWhile is_space (rev (dropWhile is_space s)))"

text \<open>
  Case-insensitive matching of an ASCII pattern under the \<open>i\<close> flag without the \<open>u\<close>
  flag: a code unit matches an ASCII letter of the pattern exactly when it is that letter
  in upper or lower case (the canonicalisation of the standard never maps a code unit
  of 128 or more to an ASCII one).
\<close>

definition ascii_fold :: "cu \<Rightarrow> cu" where
  "ascii_fold c = (if 0x41 \<le> c \<and> c \<le> 0x5A then c + 0x20 else c)"

definition ci_prefix :: "string \<Rightarrow> jsstring \<Rightarrow> bool" where
  "ci_prefix pat s = (length pat \<le> length s \<and>
     map ascii_fold (take (length pat) s) = map ascii_fold (ascii pat))"

text \<open>\<open>value.replace(/^(dingtalk|dd|ding):/i, '')\<close>, alternatives tried in order.\<close>

definition stripChannelPrefix :: "jsstring \<Rightarrow> jsstring" where
  "stripChannelPrefix v =
     (if ci_prefix ''dingtalk:'' v then drop 9 v
      else if ci_prefix ''dd:'' v then drop 3 v
      else if ci_prefix ''ding:'' v then drop 5 v
      else v)"

section \<open>Authorization helpers\<close>

record NormalizedAllowFrom =
  entries :: "jsstring list"
  entriesLower :: "jsstring list"
  hasWildcard :: bool
  hasEntries :: bool

text \<open>
  \<open>normalizeAllowFrom\<close>. The optional list is \<open>None\<close> when the caller passes
  \<open>undefined\<close>. \<open>String.prototype.toLowerCase\<close> is a table of the language runtime
  and is taken as the parameter \<open>lc\<close>.
\<close>

definition normalizeAllowFrom ::
  "(jsstring \<Rightarrow> jsstring) \<Rightarrow> jsstring list option \<Rightarrow> NormalizedAllowFrom" where
  "normalizeAllowFrom lc list =
     (let es = filter truthy (map trim (case list of None \<Rightarrow> [] | Some l \<Rightarrow> l));
          wildcard = (ascii ''*'' \<in> set es);
          normalized = map stripChannelPrefix (filter (\<lambda>v. v \<noteq> ascii ''*'') es);
          normalizedLower = map lc normalized
      in \<lparr> entries = normalized, entriesLower = normalizedLower,
           hasWildcard = wildcard, hasEntries = (length es > 0) \<rparr>)"

definition isSenderAllowed ::
  "(jsstring \<Rightarrow> jsstring) \<Rightarrow> NormalizedAllowFrom \<Rightarrow> jsstring option \<Rightarrow> bool" where
  "isSenderAllowed lc allow senderId =
     (if \<not> hasEntries allow then True
      else if hasWildcard allow then True
      else if truthy_opt senderId \<and> lc (the senderId) \<in> set (entriesLower allow) then True
      else False)"

text \<open>The ASCII fragment of \<open>toLowerCase\<close>, used to run the model on ASCII identifiers.\<close>

definition ascii_lower :: "jsstring \<Rightarrow> jsstring" where
  "ascii_lower s = map ascii_fold s"

section \<open>Inbound messages and their content\<close>

text \<open>
  Modelled from the spec: the module that declares the types of the program
  (\<open>./types\<close>: the inbound message, message content, media file, merge entry, card
  instance, token response, configuration and handler parameters) is not among the
  sources. Each record below has the fields that the code reads and writes, under the
  names the code uses, with a prefix that keeps the records apart; the spec's data model
  names the same entities.

  An optional property of an object is \<open>None\<close> when absent. \<open>i_text_content\<close> is
  \<open>data.text?.content\<close> and \<open>i_content\<close> is \<open>data.content\<close>. The identifiers
  that every event of the platform carries (sender, robot, conversation) are strings;
  \<open>senderStaffId\<close>, which only staff members have, is optional.
\<close>

record RichTextPart =
  p_type :: "jsstring option"
  p_text :: "jsstring option"
  p_atName :: "jsstring option"
  p_downloadCode :: "jsstring option"
  p_fileName :: "jsstring option"
  p_url :: "jsstring option"

record MsgBody =
  c_downloadCode :: "jsstring option"
  c_fileName :: "jsstring option"
  c_recognition :: "jsstring option"
  c_richText :: "RichTextPart list option"

record DingTalkInboundMessage =
  i_msgId :: "jsstring option"
  i_msgtype :: "jsstring option"
  i_text_content :: "jsstring option"
  i_content :: "MsgBody option"
  i_senderId :: jsstring
  i_senderStaffId :: "jsstring option"
  i_chatbotUserId :: jsstring
  i_conversationId :: jsstring
  i_conversationType :: jsstring
  i_senderNick :: "jsstring option"
  i_conversationTitle :: "jsstring option"
  i_createAt :: int

datatype MediaKind = Image | File

definition kind_str :: "MediaKind \<Rightarrow> jsstring" where
  "kind_str k = (case k of Image \<Rightarrow> ascii ''image'' | File \<Rightarrow> ascii ''file'')"

record RichTextMediaFile =
  mf_downloadCode :: jsstring
  mf_fileName :: "jsstring option"
  mf_type :: MediaKind

text \<open>
  \<open>MessageContent | RichTextContent\<close>: the two last fields are present (\<open>Some\<close>) on
  rich text content only, which is what \<open>'mediaFiles' in content\<close> tests.
\<close>

record MessageContent =
  m_text :: jsstring
  m_messageType :: jsstring
  m_mediaPath :: "jsstring option"
  m_mediaType :: "jsstring option"
  m_richTextParts :: "RichTextPart list option"
  m_mediaFiles :: "RichTextMediaFile list option"

text \<open>Decimal rendering of a number inside a template literal.\<close>

function decimal :: "nat \<Rightarrow> jsstring" where
  "decimal n = (if n < 10 then [of_nat (48 + n)]
                else decimal (n div 10) @ [of_nat (48 + n mod 10)])"
  by pat_completeness auto
termination
  by (relation "measure (\<lambda>n. n)") auto

declare decimal.simps [simp del]

text \<open>An optional string inside a template literal: \<open>undefined\<close> prints as such.\<close>

definition tmpl :: "jsstring option \<Rightarrow> jsstring" where
  "tmpl x = (case x of None \<Rightarrow> ascii ''undefined'' | Some s \<Rightarrow> s)"

definition lit_picture :: jsstring where
  "lit_picture = [0x005B, 0x56FE, 0x7247, 0x005D]"

definition lit_file_open :: jsstring where
  "lit_file_open = [0x005B, 0x6587, 0x4EF6, 0x003A, 0x0020]"

definition lit_file :: jsstring where
  "lit_file = [0x6587, 0x4EF6]"

definition lit_link :: jsstring where
  "lit_link = [0x005B, 0x94FE, 0x63A5, 0x005D]"

definition lit_richtext :: jsstring where
  "lit_richtext = [0x005B, 0x5BCC, 0x6587, 0x672C, 0x6D88, 0x606F, 0x005D]"

definition lit_voice :: jsstring where
  "lit_voice = [0x005B, 0x8BED, 0x97F3, 0x6D88, 0x606F, 0x005D]"

definition lit_video :: jsstring where
  "lit_video = [0x005B, 0x89C6, 0x9891, 0x005D]"

definition lit_message_close :: jsstring where
  "lit_message_close = [0x6D88, 0x606F, 0x005D]"

definition lit_merged :: jsstring where
  "lit_merged = [0x005B, 0x5408, 0x5E76, 0x6D88, 0x606F, 0x005D]"

text \<open>
  One turn of the loop over the rich text parts of \<open>extractMessageContent\<close>: the
  accumulated text and media files after the part.
\<close>

definition richTextStep ::
  "jsstring \<times> RichTextMediaFile list \<Rightarrow> RichTextPart \<Rightarrow> jsstring \<times> RichTextMediaFile list" where
  "richTextStep acc part =
     (let txt = fst acc; mediaFiles = snd acc;
          partType0 = (if \<not> truthy_opt (p_type part) \<and> p_text part \<noteq> None
                       then Some (ascii ''text'') else p_type part);
          partType = or_else partType0 (ascii ''unknown'')
      in if partType = ascii ''text'' then
           (if truthy_opt (p_text part) then (txt @ the (p_text part), mediaFiles) else acc)
         else if partType = ascii ''at'' then
           (if truthy_opt (p_atName part)
            then (txt @ ascii ''@'' @ the (p_atName part) @ ascii '' '', mediaFiles) else acc)
         else if partType = ascii ''picture'' then
           (if truthy_opt (p_downloadCode part)
            then (txt @ lit_picture @ ascii '' '',
                  mediaFiles @ [\<lparr> mf_downloadCode = the (p_downloadCode part),
                     mf_fileName = Some (or_else (p_fileName part)
                        (ascii ''image_'' @ decimal (length mediaFiles + 1))),
                     mf_type = Image \<rparr>])
            else acc)
         else if partType = ascii ''image'' then
           (if truthy_opt (p_downloadCode part)
            then (txt @ lit_picture @ ascii '' '',
                  mediaFiles @ [\<lparr> mf_downloadCode = the (p_downloadCode part),
                     mf_fileName = p_fileName part, mf_type = Image \<rparr>])
            else acc)
         else if partType = ascii ''file'' then
           (if truthy_opt (p_downloadCode part)
            then (txt @ lit_file_open @ or_else (p_fileName part) lit_file @ ascii ''] '',
                  mediaFiles @ [\<lparr> mf_downloadCode = the (p_downloadCode part),
                     mf_fileName = p_fileName part, mf_type = File \<rparr>])
            else acc)
         else if partType = ascii ''link'' then
           (if truthy_opt (p_url part)
            then (if truthy_opt (p_text part)
                  then (txt @ ascii ''['' @ the (p_text part) @ ascii ''](''
                          @ the (p_url part) @ ascii '') '', mediaFiles)
                  else (txt @ lit_link @ ascii ''('' @ the (p_url part) @ ascii '') '',
                        mediaFiles))
            else acc)
         else
           (if truthy_opt (p_text part) then (txt @ the (p_text part), mediaFiles) else acc))"

definition plainContent ::
  "jsstring \<Rightarrow> jsstring \<Rightarrow> jsstring option \<Rightarrow> jsstring option \<Rightarrow> MessageContent" where
  "plainContent txt mtype path mediaType =
     \<lparr> m_text = txt, m_messageType = mtype, m_mediaPath = path, m_mediaType = mediaType,
       m_richTextParts = None, m_mediaFiles = None \<rparr>"

definition contentDownloadCode :: "DingTalkInboundMessage \<Rightarrow> jsstring option" where
  "contentDownloadCode d = (case i_content d of None \<Rightarrow> None | Some c \<Rightarrow> c_downloadCode c)"

definition contentFileName :: "DingTalkInboundMessage \<Rightarrow> jsstring option" where
  "contentFileName d = (case i_content d of None \<Rightarrow> None | Some c \<Rightarrow> c_fileName c)"

definition extractMessageContent :: "DingTalkInboundMessage \<Rightarrow> MessageContent" where
  "extractMessageContent d =
     (let msgtype = or_else (i_msgtype d) (ascii ''text'') in
      if msgtype = ascii ''text'' then
        plainContent (or_else (map_option trim (i_text_content d)) []) (ascii ''text'') None None
      else if msgtype = ascii ''richText'' then
        (let richTextParts =
               (case i_content d of None \<Rightarrow> []
                | Some c \<Rightarrow> (case c_richText c of None \<Rightarrow> [] | Some ps \<Rightarrow> ps));
             r = foldl richTextStep ([], []) richTextParts;
             txt = fst r; mediaFiles = snd r
         in \<lparr> m_text = (if truthy (trim txt) then trim txt else lit_richtext),
              m_messageType = ascii ''richText'',
              m_mediaPath = (case mediaFiles of [] \<Rightarrow> None | f # _ \<Rightarrow> Some (mf_downloadCode f)),
              m_mediaType = (case mediaFiles of [] \<Rightarrow> None | f # _ \<Rightarrow> Some (kind_str (mf_type f))),
              m_richTextParts = Some richTextParts,
              m_mediaFiles = Some mediaFiles \<rparr>)
      else if msgtype = ascii ''picture'' then
        plainContent lit_picture (ascii ''picture'') (contentDownloadCode d) (Some (ascii ''image''))
      else if msgtype = ascii ''audio'' then
        plainContent
          (or_else (case i_content d of None \<Rightarrow> None | Some c \<Rightarrow> c_recognition c) lit_voice)
          (ascii ''audio'') (contentDownloadCode d) (Some (ascii ''audio''))
      else if msgtype = ascii ''video'' then
        plainContent lit_video (ascii ''video'') (contentDownloadCode d) (Some (ascii ''video''))
      else if msgtype = ascii ''file'' then
        plainContent (lit_file_open @ or_else (contentFileName d) lit_file @ ascii '']'')
          (ascii ''file'') (contentDownloadCode d) (Some (ascii ''file''))
      else
        plainContent
          (or_else (map_option trim (i_text_content d)) (ascii ''['' @ msgtype @ lit_message_close))
          msgtype None None)"

section \<open>The inbound pipeline\<close>

record DingTalkConfig =
  cfg_dmPolicy :: "jsstring option"
  cfg_allowFrom :: "jsstring list option"
  cfg_robotCode :: "jsstring option"
  cfg_messageType :: "jsstring option"
  cfg_showThinking :: "bool option"

record HandleDingTalkMessageParams =
  prm_accountId :: jsstring
  prm_data :: DingTalkInboundMessage
  prm_sessionWebhook :: jsstring
  prm_dingtalkConfig :: DingTalkConfig

text \<open>
  The pipeline is modelled by the sequence of calls it makes to its collaborators, in
  order, and by how it ends. The host runtime is opaque: whether its route resolution,
  its session recording and its reply dispatch return or throw is given by the
  environment, as is the runtime's \<open>toLowerCase\<close>. A media download returns a file or
  null and a failed notice is caught, so neither changes the sequence.
\<close>

datatype action =
    SendBySession jsstring jsstring
  | ResolveAgentRoute bool jsstring
  | DownloadMedia jsstring
  | RecordInboundSession
  | SendInteractiveCard jsstring jsstring
  | DispatchReply jsstring
  | MarkDispatchIdle
  | CleanupSessionMedia

datatype outcome = Returned | Rejected

record PipelineEnv =
  env_toLowerCase :: "jsstring \<Rightarrow> jsstring"
  env_route_ok :: bool
  env_record_ok :: bool
  env_dispatch_ok :: bool
  env_store_ok :: bool

definition lit_denied_open :: jsstring where
  "lit_denied_open = [0x26D4, 0x0020, 0x8BBF, 0x95EE, 0x53D7, 0x9650, 0x000A, 0x000A,
     0x60A8, 0x7684, 0x7528, 0x6237, 0x0049, 0x0044, 0xFF1A, 0x0060]"

definition lit_denied_close :: jsstring where
  "lit_denied_close = [0x0060, 0x000A, 0x000A, 0x8BF7, 0x8054, 0x7CFB, 0x7BA1, 0x7406,
     0x5458, 0x5C06, 0x6B64, 0x0049, 0x0044, 0x6DFB, 0x52A0, 0x5230, 0x5141, 0x8BB8,
     0x5217, 0x8868, 0x4E2D, 0x3002]"

definition lit_thinking :: jsstring where
  "lit_thinking = [0xD83E, 0xDD14, 0x0020, 0x601D, 0x8003, 0x4E2D, 0xFF0C, 0x8BF7, 0x7A0D,
     0x5019, 0x002E, 0x002E, 0x002E]"

definition denialNotice :: "jsstring \<Rightarrow> jsstring" where
  "denialNotice senderId = lit_denied_open @ senderId @ lit_denied_close"

definition effectiveSenderId :: "DingTalkInboundMessage \<Rightarrow> jsstring" where
  "effectiveSenderId d = or_else (i_senderStaffId d) (i_senderId d)"

text \<open>Steps 3 to 9 of \<open>handleDingTalkMessageOriginal\<close>, after the authorization check.\<close>

definition mediaDownloads :: "DingTalkConfig \<Rightarrow> MessageContent \<Rightarrow> action list" where
  "mediaDownloads config content =
     (if m_messageType content = ascii ''richText'' \<and> m_mediaFiles content \<noteq> None then
        map (\<lambda>f. DownloadMedia (mf_downloadCode f)) (the (m_mediaFiles content))
      else if truthy_opt (m_mediaPath content) \<and> truthy_opt (cfg_robotCode config) then
        [DownloadMedia (the (m_mediaPath content))]
      else [])"

definition thinkingFeedback ::
  "DingTalkConfig \<Rightarrow> jsstring \<Rightarrow> jsstring \<Rightarrow> action list" where
  "thinkingFeedback config sessionWebhook to =
     (if cfg_showThinking config \<noteq> Some False then
        (if cfg_messageType config = Some (ascii ''card'')
         then [SendInteractiveCard to lit_thinking]
         else [SendBySession sessionWebhook lit_thinking])
      else [])"

definition processAuthorized ::
  "PipelineEnv \<Rightarrow> HandleDingTalkMessageParams \<Rightarrow> MessageContent \<Rightarrow> action list \<times> outcome" where
  "processAuthorized env params content =
     (let d = prm_data params; config = prm_dingtalkConfig params;
          isDirect = (i_conversationType d = ascii ''1'');
          senderId = effectiveSenderId d;
          groupId = i_conversationId d;
          to = (if isDirect then senderId else groupId);
          route = [ResolveAgentRoute isDirect to]
      in if \<not> env_route_ok env then (route, Rejected)
         else
           (let recorded = route @ mediaDownloads config content @ [RecordInboundSession]
            in if \<not> env_record_ok env then (recorded, Rejected)
               else
                 (recorded @ thinkingFeedback config (prm_sessionWebhook params) to
                    @ [DispatchReply (m_text content), MarkDispatchIdle]
                    @ (if env_store_ok env then [CleanupSessionMedia] else []),
                  if env_dispatch_ok env then Returned else Rejected)))"

definition handleDingTalkMessageOriginal ::
  "PipelineEnv \<Rightarrow> HandleDingTalkMessageParams \<Rightarrow> MessageContent option
     \<Rightarrow> action list \<times> outcome" where
  "handleDingTalkMessageOriginal env params preExtractedContent =
     (let d = prm_data params; config = prm_dingtalkConfig params;
          content = (case preExtractedContent of Some c \<Rightarrow> c
                     | None \<Rightarrow> extractMessageContent d)
      in if \<not> truthy (m_text content) then ([], Returned)
         else
           (let isDirect = (i_conversationType d = ascii ''1'');
                senderId = effectiveSenderId d;
                dmPolicy = or_else (cfg_dmPolicy config) (ascii ''open'');
                allowFrom = (case cfg_allowFrom config of None \<Rightarrow> [] | Some l \<Rightarrow> l)
            in if isDirect \<and> dmPolicy = ascii ''allowlist''
                  \<and> \<not> isSenderAllowed (env_toLowerCase env)
                        (normalizeAllowFrom (env_toLowerCase env) (Some allowFrom))
                        (Some senderId)
               then ([SendBySession (prm_sessionWebhook params) (denialNotice senderId)],
                     Returned)
               else processAuthorized env params content))"

section \<open>The message merge buffer\<close>

record MergedMessage =
  mm_content :: MessageContent
  mm_data :: DingTalkInboundMessage
  mm_timestamp :: int

record MergedMessageEntry =
  e_messages :: "MergedMessage list"
  e_timer :: nat
  e_accountId :: jsstring
  e_senderId :: jsstring
  e_sessionKey :: jsstring
  e_startTime :: int

definition MESSAGE_MERGE_WINDOW_MS :: int where
  "MESSAGE_MERGE_WINDOW_MS = 2000"

definition MESSAGE_MERGE_MAX_MESSAGES :: nat where
  "MESSAGE_MERGE_MAX_MESSAGES = 5"

text \<open>\<open>Array.prototype.join\<close>.\<close>

fun join :: "jsstring \<Rightarrow> jsstring list \<Rightarrow> jsstring" where
  "join sep [] = []"
| "join sep [x] = x"
| "join sep (x # y # ys) = x @ sep @ join sep (y # ys)"

definition mergedText :: "MergedMessage list \<Rightarrow> jsstring" where
  "mergedText ms = join (ascii [CHR 0x0A, CHR 0x0A])
                     (filter truthy (map (\<lambda>m. m_text (mm_content m)) ms))"

text \<open>The media files one buffered message contributes (the body of the \<open>forEach\<close>).\<close>

definition messageMediaFiles :: "MergedMessage \<Rightarrow> RichTextMediaFile list" where
  "messageMediaFiles m =
     (let c = mm_content m in
      if m_mediaFiles c \<noteq> None \<and> length (the (m_mediaFiles c)) > 0 then the (m_mediaFiles c)
      else if truthy_opt (m_mediaPath c) then
        [\<lparr> mf_downloadCode = the (m_mediaPath c),
           mf_fileName = Some (or_else (contentFileName (mm_data m))
                                 (ascii ''media_'' @ tmpl (i_msgId (mm_data m)))),
           mf_type = (if m_mediaType c = Some (ascii ''image'') then Image else File) \<rparr>]
      else [])"

definition allMediaFiles :: "MergedMessage list \<Rightarrow> RichTextMediaFile list" where
  "allMediaFiles ms = concat (map messageMediaFiles ms)"

text \<open>
  \<open>Array.from(new Map(files.map((m) => [m.downloadCode, m])).values())\<close>: the map is
  filled entry by entry, a \<open>set\<close> on a key already present replaces the value and
  leaves the key where it is, and the values are read in key order.
\<close>

definition uniqueMediaFiles :: "RichTextMediaFile list \<Rightarrow> RichTextMediaFile list" where
  "uniqueMediaFiles files =
     map snd (foldl (\<lambda>al f. AList.update (mf_downloadCode f) f al) [] files)"

datatype error = TypeError

text \<open>The merged content that \<open>processMergedMessages\<close> builds from the buffered messages.\<close>

definition mergedContent :: "MergedMessage list \<Rightarrow> MessageContent" where
  "mergedContent ms =
     (let txt = mergedText ms;
          unique = uniqueMediaFiles (allMediaFiles ms);
          allRichTextParts = concat (map (\<lambda>m. case m_richTextParts (mm_content m) of
                                None \<Rightarrow> [] | Some ps \<Rightarrow> ps) ms)
      in \<lparr> m_text = (if truthy txt then txt else lit_merged),
           m_messageType = ascii ''richText'',
           m_mediaPath = (case unique of [] \<Rightarrow> None | f # _ \<Rightarrow> Some (mf_downloadCode f)),
           m_mediaType = (case unique of [] \<Rightarrow> None | f # _ \<Rightarrow> Some (kind_str (mf_type f))),
           m_richTextParts = Some allRichTextParts,
           m_mediaFiles = Some unique \<rparr>)"

text \<open>
  \<open>processMergedMessages\<close>: the arguments with which it calls
  \<open>handleDingTalkMessageOriginal\<close>, the parameters carrying the first message's data.
  Reading \<open>data\<close> of the first message of an empty list throws.
\<close>

definition processMergedMessages ::
  "MergedMessageEntry \<Rightarrow> HandleDingTalkMessageParams
     \<Rightarrow> error + (HandleDingTalkMessageParams \<times> MessageContent)" where
  "processMergedMessages entry params =
     (case e_messages entry of
        [] \<Rightarrow> Inl TypeError
      | firstMessage # _ \<Rightarrow>
          Inr (params\<lparr> prm_data := mm_data firstMessage \<rparr>, mergedContent (e_messages entry)))"

text \<open>
  The state of the buffer: the cache (a \<open>Map\<close>, in insertion order), the window timers
  that are armed, each with the cache key and the parameters its closure holds, and the
  calls made to the pipeline so far, each with the cache key it was made for.
\<close>

record merge_state =
  messageMergeCache :: "(jsstring \<times> MergedMessageEntry) list"
  windowTimers :: "nat \<rightharpoonup> (jsstring \<times> HandleDingTalkMessageParams)"
  nextTimer :: nat
  pipelineCalls :: "(jsstring \<times> HandleDingTalkMessageParams \<times> MessageContent) list"

definition merge_init :: merge_state where
  "merge_init = \<lparr> messageMergeCache = [], windowTimers = Map.empty, nextTimer = 0,
                  pipelineCalls = [] \<rparr>"

definition cacheKeyOf :: "HandleDingTalkMessageParams \<Rightarrow> jsstring" where
  "cacheKeyOf params =
     prm_accountId params @ ascii '':'' @ effectiveSenderId (prm_data params)
       @ ascii '':'' @ i_conversationId (prm_data params)"

definition isSelfMessage :: "DingTalkInboundMessage \<Rightarrow> bool" where
  "isSelfMessage d =
     (i_senderId d = i_chatbotUserId d \<or> i_senderStaffId d = Some (i_chatbotUserId d))"

definition bufferedMessage :: "HandleDingTalkMessageParams \<Rightarrow> int \<Rightarrow> MergedMessage" where
  "bufferedMessage params now =
     \<lparr> mm_content = extractMessageContent (prm_data params), mm_data = prm_data params,
       mm_timestamp = now \<rparr>"

definition invokePipeline ::
  "jsstring \<Rightarrow> MergedMessageEntry \<Rightarrow> HandleDingTalkMessageParams \<Rightarrow> merge_state \<Rightarrow> merge_state" where
  "invokePipeline cacheKey entry params s =
     (case processMergedMessages entry params of
        Inl e \<Rightarrow> s
      | Inr call \<Rightarrow> s\<lparr> pipelineCalls := pipelineCalls s @ [(cacheKey, call)] \<rparr>)"

definition handleDingTalkMessage ::
  "HandleDingTalkMessageParams \<Rightarrow> int \<Rightarrow> merge_state \<Rightarrow> merge_state" where
  "handleDingTalkMessage params now s =
     (let d = prm_data params in
      if isSelfMessage d then s
      else
        (let cacheKey = cacheKeyOf params;
             msg = bufferedMessage params now
         in case map_of (messageMergeCache s) cacheKey of
              Some existingEntry \<Rightarrow>
                (let entry = existingEntry\<lparr> e_messages := e_messages existingEntry @ [msg] \<rparr>;
                     s1 = s\<lparr> messageMergeCache :=
                              AList.update cacheKey entry (messageMergeCache s) \<rparr>
                 in if length (e_messages entry) \<ge> MESSAGE_MERGE_MAX_MESSAGES then
                      (let s2 = s1\<lparr> windowTimers := (windowTimers s1)(e_timer entry := None) \<rparr>;
                           entryToProcess = map_of (messageMergeCache s2) cacheKey;
                           s3 = s2\<lparr> messageMergeCache :=
                                    AList.delete cacheKey (messageMergeCache s2) \<rparr>
                       in case entryToProcess of
                            Some e \<Rightarrow> invokePipeline cacheKey e params s3
                          | None \<Rightarrow> s3)
                    else s1)
            | None \<Rightarrow>
                (let tid = nextTimer s;
                     entry = \<lparr> e_messages = [msg], e_timer = tid,
                               e_accountId = prm_accountId params,
                               e_senderId = effectiveSenderId d,
                               e_sessionKey = [], e_startTime = now \<rparr>
                 in s\<lparr> windowTimers := (windowTimers s)(tid \<mapsto> (cacheKey, params)),
                       nextTimer := tid + 1,
                       messageMergeCache :=
                         AList.update cacheKey entry (messageMergeCache s) \<rparr>)))"

text \<open>The callback of a window timer. A timer that was cleared, or has fired, does nothing.\<close>

definition windowTimerFires :: "nat \<Rightarrow> merge_state \<Rightarrow> merge_state" where
  "windowTimerFires tid s =
     (case windowTimers s tid of
        None \<Rightarrow> s
      | Some (cacheKey, params) \<Rightarrow>
          (let s1 = s\<lparr> windowTimers := (windowTimers s)(tid := None) \<rparr>
           in case map_of (messageMergeCache s1) cacheKey of
                Some cached \<Rightarrow>
                  (if length (e_messages cached) > 0 then
                     invokePipeline cacheKey cached params
                       (s1\<lparr> messageMergeCache :=
                              AList.delete cacheKey (messageMergeCache s1) \<rparr>)
                   else s1)
              | None \<Rightarrow> s1))"

text \<open>The periodic sweep of entries older than ten seconds.\<close>

definition sweepMergeCache :: "int \<Rightarrow> merge_state \<Rightarrow> merge_state" where
  "sweepMergeCache now s =
     foldl (\<lambda>st (key, entry).
              if now - e_startTime entry > 10000 then
                st\<lparr> windowTimers := (windowTimers st)(e_timer entry := None),
                    messageMergeCache := AList.delete key (messageMergeCache st) \<rparr>
              else st)
       s (messageMergeCache s)"

datatype merge_event =
    Inbound HandleDingTalkMessageParams int
  | WindowTimer nat
  | Sweep int

fun merge_step :: "merge_state \<Rightarrow> merge_event \<Rightarrow> merge_state" where
  "merge_step s (Inbound params now) = handleDingTalkMessage params now s"
| "merge_step s (WindowTimer tid) = windowTimerFires tid s"
| "merge_step s (Sweep now) = sweepMergeCache now s"

definition merge_run :: "merge_state \<Rightarrow> merge_event list \<Rightarrow> merge_state" where
  "merge_run s es = foldl merge_step s es"

definition inboundEvents :: "(HandleDingTalkMessageParams \<times> int) list \<Rightarrow> merge_event list" where
  "inboundEvents evs = map (\<lambda>(params, now). Inbound params now) evs"

text \<open>The runs of the pipeline for the calls the buffer has made, in order.\<close>

definition pipelineRuns :: "PipelineEnv \<Rightarrow> merge_state \<Rightarrow> (action list \<times> outcome) list" where
  "pipelineRuns env s =
     map (\<lambda>(cacheKey, params, content). handleDingTalkMessageOriginal env params (Some content))
       (pipelineCalls s)"

definition mergedTexts :: "merge_state \<Rightarrow> jsstring list" where
  "mergedTexts s = map (\<lambda>(cacheKey, params, content). m_text content) (pipelineCalls s)"

section \<open>The retry helper\<close>

text \<open>
  A rejected call: an HTTP error carries the status of its response, any other error has
  no response. \<open>RetryExhausted\<close> is the error thrown after the loop.
\<close>

datatype js_error = HttpError nat | OtherError | RetryExhausted

definition statusCode :: "js_error \<Rightarrow> nat option" where
  "statusCode err = (case err of HttpError st \<Rightarrow> Some st | _ \<Rightarrow> None)"

definition isRetryable :: "js_error \<Rightarrow> bool" where
  "isRetryable err =
     (case statusCode err of
        None \<Rightarrow> False
      | Some st \<Rightarrow> st = 401 \<or> st = 429 \<or> (st \<noteq> 0 \<and> st \<ge> 500))"

text \<open>
  \<open>retryWithBackoff\<close>, from attempt number \<open>attempt\<close> on. The callback is given by the
  outcome of each of its calls, by attempt number, counted from one. The result comes with
  the number of calls made. The waits between attempts are not modelled.
\<close>

function retryFrom ::
  "nat \<Rightarrow> (nat \<Rightarrow> js_error + 'a) \<Rightarrow> nat \<Rightarrow> (js_error + 'a) \<times> nat" where
  "retryFrom maxRetries fn attempt =
     (if attempt \<le> maxRetries then
        (case fn attempt of
           Inr v \<Rightarrow> (Inr v, attempt)
         | Inl err \<Rightarrow>
             (if \<not> isRetryable err \<or> attempt = maxRetries then (Inl err, attempt)
              else retryFrom maxRetries fn (attempt + 1)))
      else (Inl RetryExhausted, attempt - 1))"
  by pat_completeness auto
termination
  by (relation "measure (\<lambda>(maxRetries, fn, attempt). maxRetries + 1 - attempt)") auto

declare retryFrom.simps [simp del]

definition retryWithBackoff ::
  "nat \<Rightarrow> (nat \<Rightarrow> js_error + 'a) \<Rightarrow> (js_error + 'a) \<times> nat" where
  "retryWithBackoff maxRetries fn = retryFrom maxRetries fn 1"

section \<open>The token cache\<close>

record token_cache =
  accessToken :: "jsstring option"
  accessTokenExpiry :: int

record TokenInfo =
  ti_accessToken :: jsstring
  ti_expireIn :: int

text \<open>
  \<open>getAccessToken\<close> at \<open>Date.now() = now\<close>, with the outcome of each call to the token
  endpoint. It gives the token or the error, the cache afterwards, and the number of
  calls made to the endpoint. The callback writes the cache only when its call succeeds,
  and that call is the last.
\<close>

definition getAccessToken ::
  "(nat \<Rightarrow> js_error + TokenInfo) \<Rightarrow> int \<Rightarrow> 'a token_cache_scheme
     \<Rightarrow> (js_error + jsstring) \<times> 'a token_cache_scheme \<times> nat" where
  "getAccessToken post now s =
     (if truthy_opt (accessToken s) \<and> accessTokenExpiry s > now + 60000 then
        (Inr (the (accessToken s)), s, 0)
      else
        (case retryWithBackoff 3 post of
           (Inr info, n) \<Rightarrow>
             (Inr (ti_accessToken info),
              s\<lparr> accessToken := Some (ti_accessToken info),
                 accessTokenExpiry := now + ti_expireIn info * 1000 \<rparr>, n)
         | (Inl err, n) \<Rightarrow> (Inl err, s, n)))"



section \<open>The card registry and card updates\<close>

record CardInstance =
  ci_cardBizId :: jsstring
  ci_conversationId :: jsstring
  ci_createdAt :: int
  ci_lastUpdated :: int

record card_registry = token_cache +
  cardInstances :: "(jsstring \<times> CardInstance) list"

text \<open>
  What \<open>updateInteractiveCard\<close> does to the registry once its request has settled, at
  \<open>Date.now() = now\<close>: a success stamps the instance when there is one, a failure with
  status 404, 410 or 403 deletes it.
\<close>

definition isTerminalStatus :: "js_error \<Rightarrow> bool" where
  "isTerminalStatus err =
     (statusCode err = Some 404 \<or> statusCode err = Some 410 \<or> statusCode err = Some 403)"

definition recordUpdateOutcome ::
  "js_error + 'r \<Rightarrow> int \<Rightarrow> jsstring \<Rightarrow> (jsstring \<times> CardInstance) list
     \<Rightarrow> (jsstring \<times> CardInstance) list" where
  "recordUpdateOutcome result now cardBizId cards =
     (case result of
        Inr v \<Rightarrow>
          (case map_of cards cardBizId of
             Some instance \<Rightarrow> AList.update cardBizId (instance\<lparr> ci_lastUpdated := now \<rparr>) cards
           | None \<Rightarrow> cards)
      | Inl err \<Rightarrow> (if isTerminalStatus err then AList.delete cardBizId cards else cards))"

text \<open>
  \<open>updateInteractiveCard\<close>, with the outcomes of the calls to the token endpoint and of
  the update requests for this card and text. The token is fetched outside the
  \<open>try\<close> block. It gives the response or the error, the state afterwards, and the
  numbers of token calls and of update requests made.
\<close>

definition updateInteractiveCard ::
  "(nat \<Rightarrow> js_error + TokenInfo) \<Rightarrow> (jsstring \<Rightarrow> jsstring \<Rightarrow> nat \<Rightarrow> js_error + 'r)
     \<Rightarrow> int \<Rightarrow> int \<Rightarrow> jsstring \<Rightarrow> jsstring \<Rightarrow> 'a card_registry_scheme
     \<Rightarrow> (js_error + 'r) \<times> 'a card_registry_scheme \<times> nat \<times> nat" where
  "updateInteractiveCard post put now settled cardBizId txt s =
     (case getAccessToken post now s of
        (Inl err, s1, n) \<Rightarrow> (Inl err, s1, n, 0)
      | (Inr token, s1, n) \<Rightarrow>
          (case retryWithBackoff 3 (put cardBizId txt) of
             (result, m) \<Rightarrow>
               (result,
                s1\<lparr> cardInstances :=
                      recordUpdateOutcome result settled cardBizId (cardInstances s1) \<rparr>,
                n, m)))"

section \<open>The card update throttle\<close>




text \<open>
  The callbacks that timers of the throttle hold: the inactivity callback of a card, and
  the scheduled update of a card with its text and with the promise whose \<open>resolve\<close>
  and \<open>reject\<close> it holds.
\<close>

datatype timer_action = Inactivity jsstring | ScheduledUpdate jsstring jsstring nat

datatype settlement = Pending | Resolved | Rejected js_error

text \<open>
  The state of the throttle: the three maps of the module, and of the runtime the armed
  timers (each with the time it is due), the calls of \<open>updateInteractiveCard\<close> that are
  awaited (each with its card and the promise that settles with it), the promises
  returned by \<open>updateInteractiveCardThrottled\<close>, and the calls of
  \<open>updateInteractiveCard\<close> made so far with their time, card and text.
\<close>

record throttle_state = card_registry +
  cardUpdateTimestamps :: "(jsstring \<times> int) list"
  cardUpdateTimeouts :: "(jsstring \<times> nat) list"
  timers :: "nat \<rightharpoonup> (int \<times> timer_action)"
  nextTimerId :: nat
  awaited :: "nat \<rightharpoonup> (jsstring \<times> nat)"
  nextCall :: nat
  promises :: "nat \<rightharpoonup> settlement"
  nextPromise :: nat
  networkCalls :: "(int \<times> jsstring \<times> jsstring) list"



text \<open>The start of a call of \<open>updateInteractiveCard\<close> whose completion settles promise \<open>p\<close>.\<close>

definition startUpdate :: "jsstring \<Rightarrow> jsstring \<Rightarrow> int \<Rightarrow> nat \<Rightarrow> throttle_state \<Rightarrow> throttle_state" where
  "startUpdate cardBizId txt now p s =
     s\<lparr> networkCalls := networkCalls s @ [(now, cardBizId, txt)],
        awaited := (awaited s)(nextCall s \<mapsto> (cardBizId, p)),
        nextCall := nextCall s + 1 \<rparr>"











section \<open>Predicates on the state of the throttle\<close>















definition callsFor :: "jsstring \<Rightarrow> throttle_state \<Rightarrow> (int \<times> jsstring \<times> jsstring) list" where
  "callsFor cardBizId s = filter (\<lambda>(t, c, txt). c = cardBizId) (networkCalls s)"










section \<open>Sample inputs\<close>

text \<open>Concrete configurations, events and environments on which the model is run.\<close>

definition sample_config :: "jsstring option \<Rightarrow> jsstring list option \<Rightarrow> DingTalkConfig" where
  "sample_config policy allow =
     \<lparr> cfg_dmPolicy = policy, cfg_allowFrom = allow, cfg_robotCode = None,
       cfg_messageType = None, cfg_showThinking = None \<rparr>"

definition sample_message ::
  "string \<Rightarrow> string \<Rightarrow> string \<Rightarrow> string \<Rightarrow> MsgBody option \<Rightarrow> DingTalkInboundMessage" where
  "sample_message msgId conversationType msgtype txt body =
     \<lparr> i_msgId = Some (ascii msgId), i_msgtype = Some (ascii msgtype),
       i_text_content = Some (ascii txt), i_content = body,
       i_senderId = ascii ''u1'', i_senderStaffId = None, i_chatbotUserId = ascii ''bot'',
       i_conversationId = ascii ''cid1'', i_conversationType = ascii conversationType,
       i_senderNick = None, i_conversationTitle = None, i_createAt = 0 \<rparr>"

definition sample_body :: "string \<Rightarrow> string option \<Rightarrow> MsgBody" where
  "sample_body code name =
     \<lparr> c_downloadCode = Some (ascii code), c_fileName = map_option ascii name,
       c_recognition = None, c_richText = None \<rparr>"

definition sample_params :: "DingTalkConfig \<Rightarrow> DingTalkInboundMessage \<Rightarrow> HandleDingTalkMessageParams" where
  "sample_params config d =
     \<lparr> prm_accountId = ascii ''acc'', prm_data = d, prm_sessionWebhook = ascii ''hook'',
       prm_dingtalkConfig = config \<rparr>"

definition sample_text_event :: "string \<Rightarrow> string \<Rightarrow> HandleDingTalkMessageParams" where
  "sample_text_event msgId txt =
     sample_params (sample_config None None) (sample_message msgId ''2'' ''text'' txt None)"

definition sample_env :: PipelineEnv where
  "sample_env = \<lparr> env_toLowerCase = ascii_lower, env_route_ok = True, env_record_ok = True,
                  env_dispatch_ok = True, env_store_ok = True \<rparr>"

definition sample_picture_event :: "string \<Rightarrow> HandleDingTalkMessageParams" where
  "sample_picture_event msgId = sample_params (sample_config None None)
     (sample_message msgId ''2'' ''picture'' [] (Some (sample_body ''code1'' None)))"

definition sample_direct_event :: "jsstring list \<Rightarrow> HandleDingTalkMessageParams" where
  "sample_direct_event allow =
     sample_params (sample_config (Some (ascii ''allowlist'')) (Some allow))
       (sample_message ''m1'' ''1'' ''text'' ''hi'' None)"

definition sample_blank_direct_event :: "jsstring list \<Rightarrow> HandleDingTalkMessageParams" where
  "sample_blank_direct_event allow =
     sample_params (sample_config (Some (ascii ''allowlist'')) (Some allow))
       (sample_message ''m1'' ''1'' ''text'' ''  '' None)"


definition sample_token_endpoint :: "nat \<Rightarrow> nat \<Rightarrow> js_error + TokenInfo" where
  "sample_token_endpoint failures attempt =
     (if attempt \<le> failures then Inl (HttpError 500)
      else Inr \<lparr> ti_accessToken = ascii ''fresh'', ti_expireIn = 7200 \<rparr>)"

definition sample_rejecting_endpoint :: "nat \<Rightarrow> nat \<Rightarrow> js_error + TokenInfo" where
  "sample_rejecting_endpoint status attempt = Inl (HttpError status)"

definition sample_registry :: card_registry where
  "sample_registry =
     \<lparr> accessToken = Some (ascii ''tok''), accessTokenExpiry = 9000000,
       cardInstances = [(ascii ''card1'',
          \<lparr> ci_cardBizId = ascii ''card1'', ci_conversationId = ascii ''cid1'',
            ci_createdAt = 0, ci_lastUpdated = 0 \<rparr>)] \<rparr>"

definition sample_update_endpoint ::
  "nat list \<Rightarrow> jsstring \<Rightarrow> jsstring \<Rightarrow> nat \<Rightarrow> js_error + unit" where
  "sample_update_endpoint statuses cardBizId txt attempt =
     (if attempt - 1 < length statuses then Inl (HttpError (statuses ! (attempt - 1)))
      else Inr ())"

definition sample_registry_without_token :: card_registry where
  "sample_registry_without_token = sample_registry\<lparr> accessToken := None \<rparr>"

definition sample_failing_update :: "nat \<Rightarrow> jsstring \<Rightarrow> jsstring \<Rightarrow> nat \<Rightarrow> js_error + unit" where
  "sample_failing_update status cardBizId txt attempt = Inl (HttpError status)"




section \<open>Unfolding rules for running the model\<close>

lemmas sample_defs =
  sample_config_def sample_message_def sample_body_def sample_params_def
  sample_text_event_def sample_env_def
  sample_picture_event_def sample_direct_event_def

lemmas merge_defs =
  merge_run_def merge_init_def inboundEvents_def handleDingTalkMessage_def
  windowTimerFires_def invokePipeline_def processMergedMessages_def mergedContent_def
  bufferedMessage_def isSelfMessage_def cacheKeyOf_def effectiveSenderId_def
  mergedText_def uniqueMediaFiles_def allMediaFiles_def messageMediaFiles_def
  contentFileName_def contentDownloadCode_def tmpl_def kind_str_def
  MESSAGE_MERGE_MAX_MESSAGES_def mergedTexts_def pipelineRuns_def

lemmas content_defs =
  extractMessageContent_def plainContent_def or_else_def truthy_def truthy_opt_def
  trim_def is_space_def ascii_def

lemmas pipeline_defs =
  handleDingTalkMessageOriginal_def processAuthorized_def mediaDownloads_def
  thinkingFeedback_def denialNotice_def normalizeAllowFrom_def isSenderAllowed_def

lemmas retry_eval = retryWithBackoff_def retryFrom.simps isRetryable_def statusCode_def


section \<open>Properties of the authorization helpers\<close>

lemma normalizeAllowFrom_blank:
  assumes "\<forall>v \<in> set l. trim v = []"
  shows "hasEntries (normalizeAllowFrom lc (Some l)) = False"
proof -
  from assms have "filter truthy (map trim l) = []"
    by (induction l) (simp_all add: truthy_def)
  then show ?thesis
    by (simp add: normalizeAllowFrom_def Let_def)
qed

text \<open>
  Claim C10. With an allowFrom list that is absent, empty, or made only of blank
  entries, the normalized list has no entries and the sender check answers true for
  every sender, present or not. The pipeline, given a configuration with such a list and
  a content with text, does not reject: whatever the policy, it goes on with the
  processing of an authorized message.
\<close>

theorem C10_empty_allowlist_admits_all:
  assumes "list = None \<or> (\<exists>l. list = Some l \<and> (\<forall>v \<in> set l. trim v = []))"
  shows "hasEntries (normalizeAllowFrom lc list) = False
         \<and> isSenderAllowed lc (normalizeAllowFrom lc list) senderId = True
         \<and> (cfg_allowFrom (prm_dingtalkConfig params) = list \<and> truthy (m_text content) \<longrightarrow>
              handleDingTalkMessageOriginal env params (Some content)
                = processAuthorized env params content)"
proof -
  have blank: "hasEntries (normalizeAllowFrom f (Some l)) = False"
    if "\<forall>v \<in> set l. trim v = []" for f l
    using that by (rule normalizeAllowFrom_blank)
  have h: "hasEntries (normalizeAllowFrom lc list) = False"
  proof (cases list)
    case None
    then show ?thesis by (simp add: normalizeAllowFrom_def Let_def)
  next
    case (Some l)
    with assms have "\<forall>v \<in> set l. trim v = []" by simp
    with Some show ?thesis by (simp add: blank)
  qed
  have g: "hasEntries (normalizeAllowFrom (env_toLowerCase env)
             (Some (case list of None \<Rightarrow> [] | Some l \<Rightarrow> l))) = False"
  proof (cases list)
    case None
    then show ?thesis by (simp add: normalizeAllowFrom_def Let_def)
  next
    case (Some l)
    with assms have "\<forall>v \<in> set l. trim v = []" by simp
    with Some show ?thesis by (simp add: blank)
  qed
  have "handleDingTalkMessageOriginal env params (Some content)
          = processAuthorized env params content"
    if "cfg_allowFrom (prm_dingtalkConfig params) = list" "truthy (m_text content)"
    using that g by (simp add: handleDingTalkMessageOriginal_def Let_def isSenderAllowed_def)
  with h show ?thesis by (simp add: isSenderAllowed_def)
qed

theorem C10_witness:
  "isSenderAllowed ascii_lower
     (normalizeAllowFrom ascii_lower (Some [ascii ''  '', ascii '''']))
     (Some (ascii ''user42'')) = True
   \<and> handleDingTalkMessageOriginal sample_env (sample_direct_event [ascii ''  '', ascii ''''])
        (Some (mergedContent [bufferedMessage (sample_direct_event [ascii ''  '', ascii '''']) 0]))
      = ([ResolveAgentRoute True (ascii ''u1''), RecordInboundSession,
          SendBySession (ascii ''hook'') lit_thinking, DispatchReply (ascii ''hi''),
          MarkDispatchIdle, CleanupSessionMedia], Returned)"
proof -
  let ?l = "[ascii ''  '', ascii '''']"
  let ?p = "sample_direct_event ?l"
  let ?c = "mergedContent [bufferedMessage ?p 0]"
  have b: "Some ?l = None \<or> (\<exists>l. Some ?l = Some l \<and> (\<forall>v \<in> set l. trim v = []))"
    by (simp add: ascii_def trim_def is_space_def)
  have c: "cfg_allowFrom (prm_dingtalkConfig ?p) = Some ?l"
    by (simp add: sample_defs)
  have t: "truthy (m_text ?c)"
    by (simp add: mergedContent_def Let_def truthy_def lit_merged_def)
  have r: "processAuthorized sample_env ?p ?c
      = ([ResolveAgentRoute True (ascii ''u1''), RecordInboundSession,
          SendBySession (ascii ''hook'') lit_thinking, DispatchReply (ascii ''hi''),
          MarkDispatchIdle, CleanupSessionMedia], Returned)"
    by (simp add: merge_defs sample_defs content_defs pipeline_defs Let_def)
  from C10_empty_allowlist_admits_all [OF b, of ascii_lower "Some (ascii ''user42'')" ?p ?c sample_env]
    c t r
  show ?thesis by simp
qed

section \<open>Deduplication of media files\<close>

lemma foldl_update_keys:
  "map fst (foldl (\<lambda>al f. AList.update (mf_downloadCode f) f al) [] files)
     = rev (remdups (rev (map mf_downloadCode files)))"
proof (induction files rule: rev_induct)
  case Nil
  then show ?case by simp
next
  case (snoc f fs)
  have "set (rev (remdups (rev (map mf_downloadCode fs)))) = mf_downloadCode ` set fs"
    by simp
  with snoc show ?case
    by (auto simp: update_keys image_iff)
qed

lemma foldl_update_map_of:
  "map_of (foldl (\<lambda>al f. AList.update (mf_downloadCode f) f al) al0 files)
     = map_of (rev (map (\<lambda>f. (mf_downloadCode f, f)) files) @ al0)"
proof (induction files arbitrary: al0)
  case Nil
  then show ?case by simp
next
  case (Cons f fs)
  show ?case
    by (simp add: Cons.IH update_conv' map_add_def fun_eq_iff split: option.splits)
qed

lemma map_of_code_pairs:
  "map_of (map (\<lambda>f. (mf_downloadCode f, f)) gs) c = find (\<lambda>g. mf_downloadCode g = c) gs"
  by (induction gs) auto

lemma find_SomeD: "find P xs = Some x \<Longrightarrow> P x \<and> x \<in> set xs"
  by (induction xs) (auto split: if_splits)

lemma uniqueMediaFiles_set:
  "set (uniqueMediaFiles files)
     = {f \<in> set files. find (\<lambda>g. mf_downloadCode g = mf_downloadCode f) (rev files) = Some f}"
proof -
  let ?A = "foldl (\<lambda>al f. AList.update (mf_downloadCode f) f al) [] files"
  have d: "distinct (map fst ?A)"
    by (simp add: foldl_update_keys)
  have m: "map_of ?A c = find (\<lambda>g. mf_downloadCode g = c) (rev files)" for c
    using map_of_code_pairs [of "rev files" c]
    by (simp add: foldl_update_map_of rev_map)
  have mem: "(k, f) \<in> set ?A \<longleftrightarrow> find (\<lambda>g. mf_downloadCode g = k) (rev files) = Some f" for k f
    using map_of_eq_Some_iff [OF d, of k f] m [of k] by simp
  have key: "find (\<lambda>g. mf_downloadCode g = k) (rev files) = Some f \<Longrightarrow> mf_downloadCode f = k \<and> f \<in> set files" for k f
    using find_SomeD [of "\<lambda>g. mf_downloadCode g = k" "rev files" f] by simp
  show ?thesis
  proof (rule set_eqI)
    fix f
    have "f \<in> set (uniqueMediaFiles files) \<longleftrightarrow> (\<exists>k. (k, f) \<in> set ?A)"
      by (force simp: uniqueMediaFiles_def)
    also have "\<dots> \<longleftrightarrow> (\<exists>k. find (\<lambda>g. mf_downloadCode g = k) (rev files) = Some f)"
      by (simp add: mem)
    also have "\<dots> \<longleftrightarrow> f \<in> set files \<and> find (\<lambda>g. mf_downloadCode g = mf_downloadCode f) (rev files) = Some f"
      using key by blast
    finally show "f \<in> set (uniqueMediaFiles files) \<longleftrightarrow>
        f \<in> {f \<in> set files. find (\<lambda>g. mf_downloadCode g = mf_downloadCode f) (rev files) = Some f}"
      by simp
  qed
qed

section \<open>Steps of the merge buffer\<close>

lemma handle_create:
  assumes "\<not> isSelfMessage (prm_data p)" "map_of (messageMergeCache s) (cacheKeyOf p) = None"
  shows "handleDingTalkMessage p now s =
     s\<lparr> windowTimers := (windowTimers s)(nextTimer s \<mapsto> (cacheKeyOf p, p)),
        nextTimer := nextTimer s + 1,
        messageMergeCache := AList.update (cacheKeyOf p)
          \<lparr> e_messages = [bufferedMessage p now], e_timer = nextTimer s,
            e_accountId = prm_accountId p, e_senderId = effectiveSenderId (prm_data p),
            e_sessionKey = [], e_startTime = now \<rparr> (messageMergeCache s) \<rparr>"
  using assms by (simp add: handleDingTalkMessage_def Let_def)

lemma handle_append:
  assumes "\<not> isSelfMessage (prm_data p)" "map_of (messageMergeCache s) (cacheKeyOf p) = Some e"
    "length (e_messages e) + 1 < MESSAGE_MERGE_MAX_MESSAGES"
  shows "handleDingTalkMessage p now s =
     s\<lparr> messageMergeCache := AList.update (cacheKeyOf p)
           (e\<lparr> e_messages := e_messages e @ [bufferedMessage p now] \<rparr>) (messageMergeCache s) \<rparr>"
  using assms by (simp add: handleDingTalkMessage_def Let_def)

lemma handle_max:
  assumes "\<not> isSelfMessage (prm_data p)" "map_of (messageMergeCache s) (cacheKeyOf p) = Some e"
    "length (e_messages e) + 1 \<ge> MESSAGE_MERGE_MAX_MESSAGES"
  shows "handleDingTalkMessage p now s =
     invokePipeline (cacheKeyOf p) (e\<lparr> e_messages := e_messages e @ [bufferedMessage p now] \<rparr>) p
       (s\<lparr> windowTimers := (windowTimers s)(e_timer e := None),
           messageMergeCache := AList.delete (cacheKeyOf p) (messageMergeCache s) \<rparr>)"
  using assms by (simp add: handleDingTalkMessage_def Let_def update_conv' delete_update_same)

lemma invokePipeline_nonempty:
  assumes "e_messages e = m # ms"
  shows "invokePipeline k e p s =
     s\<lparr> pipelineCalls := pipelineCalls s @ [(k, p\<lparr> prm_data := mm_data m \<rparr>, mergedContent (m # ms))] \<rparr>"
  using assms by (simp add: invokePipeline_def processMergedMessages_def)

lemma timer_fires:
  assumes "windowTimers s tid = Some (k, p)" "map_of (messageMergeCache s) k = Some e"
    "e_messages e = m # ms"
  shows "windowTimerFires tid s =
     s\<lparr> windowTimers := (windowTimers s)(tid := None),
        messageMergeCache := AList.delete k (messageMergeCache s),
        pipelineCalls := pipelineCalls s @ [(k, p\<lparr> prm_data := mm_data m \<rparr>, mergedContent (m # ms))] \<rparr>"
  using assms by (simp add: windowTimerFires_def invokePipeline_def processMergedMessages_def)

lemma append_run:
  assumes "map_of (messageMergeCache s) k = Some e"
    and "\<forall>(p, t) \<in> set evs. \<not> isSelfMessage (prm_data p) \<and> cacheKeyOf p = k"
    and "length (e_messages e) + length evs < MESSAGE_MERGE_MAX_MESSAGES"
  shows "merge_run s (inboundEvents evs) =
     s\<lparr> messageMergeCache := AList.update k
           (e\<lparr> e_messages := e_messages e @ map (\<lambda>(p, t). bufferedMessage p t) evs \<rparr>)
           (messageMergeCache s) \<rparr>"
  using assms
proof (induction evs arbitrary: s e)
  case Nil
  then show ?case by (simp add: merge_run_def inboundEvents_def update_triv)
next
  case (Cons ev evs)
  obtain p t where ev: "ev = (p, t)" by (cases ev)
  let ?e1 = "e\<lparr> e_messages := e_messages e @ [bufferedMessage p t] \<rparr>"
  let ?s1 = "s\<lparr> messageMergeCache := AList.update k ?e1 (messageMergeCache s) \<rparr>"
  from Cons.prems ev have p: "\<not> isSelfMessage (prm_data p)" "cacheKeyOf p = k" by auto
  have step: "handleDingTalkMessage p t s = ?s1"
    using handle_append [of p s e t] p Cons.prems(1,3) by simp
  have m1: "map_of (messageMergeCache ?s1) k = Some ?e1"
    by (simp add: update_conv')
  have rest: "\<forall>(p, t) \<in> set evs. \<not> isSelfMessage (prm_data p) \<and> cacheKeyOf p = k"
    using Cons.prems(2) by simp
  have len: "length (e_messages ?e1) + length evs < MESSAGE_MERGE_MAX_MESSAGES"
    using Cons.prems(3) by simp
  have "merge_run s (inboundEvents (ev # evs)) = merge_run ?s1 (inboundEvents evs)"
    using step ev by (simp add: merge_run_def inboundEvents_def)
  also have "\<dots> = ?s1\<lparr> messageMergeCache := AList.update k
           (?e1\<lparr> e_messages := e_messages ?e1 @ map (\<lambda>(p, t). bufferedMessage p t) evs \<rparr>)
           (messageMergeCache ?s1) \<rparr>"
    by (rule Cons.IH [OF m1 rest len])
  finally show ?case using ev by simp
qed


lemma window_flush_once:
  assumes nokey: "map_of (messageMergeCache s) k = None"
    and ne: "evs \<noteq> []" and le: "length evs \<le> MESSAGE_MERGE_MAX_MESSAGES"
    and same: "\<forall>(p, t) \<in> set evs. \<not> isSelfMessage (prm_data p) \<and> cacheKeyOf p = k"
  shows "pipelineCalls (merge_run s (inboundEvents evs @ [WindowTimer (nextTimer s)]))
           = pipelineCalls s @
             [(k, (fst (if length evs = MESSAGE_MERGE_MAX_MESSAGES then last evs else hd evs))
                    \<lparr> prm_data := prm_data (fst (hd evs)) \<rparr>,
               mergedContent (map (\<lambda>(p, t). bufferedMessage p t) evs))]"
proof -
  obtain p1 t1 rest where evs: "evs = (p1, t1) # rest"
    using ne by (cases evs) auto
  let ?tid = "nextTimer s"
  let ?e1 = "\<lparr> e_messages = [bufferedMessage p1 t1], e_timer = ?tid,
            e_accountId = prm_accountId p1, e_senderId = effectiveSenderId (prm_data p1),
            e_sessionKey = [], e_startTime = t1 \<rparr>"
  let ?s1 = "s\<lparr> windowTimers := (windowTimers s)(?tid \<mapsto> (k, p1)),
        nextTimer := ?tid + 1,
        messageMergeCache := AList.update k ?e1 (messageMergeCache s) \<rparr>"
  from same evs have p1: "\<not> isSelfMessage (prm_data p1)" "cacheKeyOf p1 = k" by auto
  have s1: "handleDingTalkMessage p1 t1 s = ?s1"
    using handle_create [of p1 s t1] p1 nokey by simp
  have m1: "map_of (messageMergeCache ?s1) k = Some ?e1"
    by (simp add: update_conv')
  have run1: "merge_run s (inboundEvents evs @ es) = merge_run ?s1 (inboundEvents rest @ es)" for es
    using s1 evs by (simp add: merge_run_def inboundEvents_def)
  show ?thesis
  proof (cases "length evs = MESSAGE_MERGE_MAX_MESSAGES")
    case False
    with le evs have len: "length (e_messages ?e1) + length rest < MESSAGE_MERGE_MAX_MESSAGES"
      by simp
    have rest: "\<forall>(p, t) \<in> set rest. \<not> isSelfMessage (prm_data p) \<and> cacheKeyOf p = k"
      using same evs by simp
    let ?e2 = "?e1\<lparr> e_messages := e_messages ?e1 @ map (\<lambda>(p, t). bufferedMessage p t) rest \<rparr>"
    let ?s2 = "?s1\<lparr> messageMergeCache := AList.update k ?e2 (messageMergeCache ?s1) \<rparr>"
    have r2: "merge_run ?s1 (inboundEvents rest) = ?s2"
      by (rule append_run [OF m1 rest len])
    have "merge_run s (inboundEvents evs @ [WindowTimer ?tid]) = windowTimerFires ?tid ?s2"
      using run1 [of "[WindowTimer ?tid]"] r2 by (simp add: merge_run_def)
    moreover have "pipelineCalls (windowTimerFires ?tid ?s2) = pipelineCalls s @
        [(k, p1\<lparr> prm_data := mm_data (bufferedMessage p1 t1) \<rparr>,
          mergedContent (bufferedMessage p1 t1 # map (\<lambda>(p, t). bufferedMessage p t) rest))]"
      by (subst timer_fires [where k = k and p = p1 and e = ?e2 and m = "bufferedMessage p1 t1"
            and ms = "map (\<lambda>(p, t). bufferedMessage p t) rest"])
         (simp_all add: update_conv')
    ultimately show ?thesis using False evs by (simp add: bufferedMessage_def)
  next
    case True
    with evs have "rest \<noteq> []" by (auto simp: MESSAGE_MERGE_MAX_MESSAGES_def)
    then obtain mid ev5 where rest: "rest = mid @ [ev5]"
      by (metis rev_exhaust)
    obtain p5 t5 where ev5: "ev5 = (p5, t5)" by (cases ev5)
    from same evs rest ev5 have p5: "\<not> isSelfMessage (prm_data p5)" "cacheKeyOf p5 = k" by auto
    have mid: "\<forall>(p, t) \<in> set mid. \<not> isSelfMessage (prm_data p) \<and> cacheKeyOf p = k"
      using same evs rest by simp
    from True evs rest
    have len: "length (e_messages ?e1) + length mid < MESSAGE_MERGE_MAX_MESSAGES"
      and full: "MESSAGE_MERGE_MAX_MESSAGES \<le> length mid + 2"
      by simp_all
    let ?e2 = "?e1\<lparr> e_messages := e_messages ?e1 @ map (\<lambda>(p, t). bufferedMessage p t) mid \<rparr>"
    let ?s2 = "?s1\<lparr> messageMergeCache := AList.update k ?e2 (messageMergeCache ?s1) \<rparr>"
    let ?e3 = "?e2\<lparr> e_messages := e_messages ?e2 @ [bufferedMessage p5 t5] \<rparr>"
    let ?s3 = "invokePipeline k ?e3 p5
       (?s2\<lparr> windowTimers := (windowTimers ?s2)(e_timer ?e2 := None),
           messageMergeCache := AList.delete k (messageMergeCache ?s2) \<rparr>)"
    have r2: "merge_run ?s1 (inboundEvents mid) = ?s2"
      by (rule append_run [OF m1 mid len])
    have m2: "map_of (messageMergeCache ?s2) (cacheKeyOf p5) = Some ?e2"
      using p5 by (simp add: update_conv')
    have r3: "handleDingTalkMessage p5 t5 ?s2 = ?s3"
      using handle_max [OF p5(1) m2, of t5] full p5(2) by simp
    have "merge_run s (inboundEvents evs @ [WindowTimer ?tid])
            = windowTimerFires ?tid (handleDingTalkMessage p5 t5 (merge_run ?s1 (inboundEvents mid)))"
      using run1 [of "[WindowTimer ?tid]"] rest ev5
      by (simp add: merge_run_def inboundEvents_def)
    also have "\<dots> = windowTimerFires ?tid ?s3"
      using r2 r3 by simp
    finally have fin: "merge_run s (inboundEvents evs @ [WindowTimer ?tid]) = windowTimerFires ?tid ?s3" .
    have inv: "?s3 = (?s2\<lparr> windowTimers := (windowTimers ?s2)(e_timer ?e2 := None),
           messageMergeCache := AList.delete k (messageMergeCache ?s2) \<rparr>)
         \<lparr> pipelineCalls := pipelineCalls s @
            [(k, p5\<lparr> prm_data := mm_data (bufferedMessage p1 t1) \<rparr>,
              mergedContent (bufferedMessage p1 t1 # map (\<lambda>(p, t). bufferedMessage p t) mid
                 @ [bufferedMessage p5 t5]))] \<rparr>"
      by (subst invokePipeline_nonempty [where m = "bufferedMessage p1 t1"
            and ms = "map (\<lambda>(p, t). bufferedMessage p t) mid @ [bufferedMessage p5 t5]"])
         simp_all
    have "pipelineCalls (windowTimerFires ?tid ?s3) = pipelineCalls s @
            [(k, p5\<lparr> prm_data := mm_data (bufferedMessage p1 t1) \<rparr>,
              mergedContent (bufferedMessage p1 t1 # map (\<lambda>(p, t). bufferedMessage p t) mid
                 @ [bufferedMessage p5 t5]))]"
      by (subst inv) (simp add: windowTimerFires_def)
    with fin show ?thesis using True evs rest ev5 by (simp add: bufferedMessage_def)
  qed
qed

lemma join_truthy: "xs \<noteq> [] \<Longrightarrow> \<forall>x \<in> set xs. truthy x \<Longrightarrow> truthy (join sep xs)"
  by (induction sep xs rule: join.induct) (auto simp: truthy_def)

lemma mergedContent_text:
  "m_text (mergedContent ms) = (if truthy (mergedText ms) then mergedText ms else lit_merged)"
  by (simp add: mergedContent_def Let_def)

section \<open>The merge window\<close>

text \<open>
  Claim C1, as amended. Take a key with no open entry and between one and five events
  (five closes the window) that are not the robot's own, share that key and arrive one
  after the other, and let the window timer armed by the first one fire afterwards. The
  pipeline is invoked exactly once more, for that key, with the data of the first event
  and with the non-empty texts of the events joined by a blank line in arrival order; an
  event with empty text adds neither text nor separator, and when no event has text the
  placeholder of the source stands in. When every event has text, the merged text is the
  texts of all events joined by a blank line.
\<close>

theorem C1_merge_window_invokes_pipeline_once:
  assumes nokey: "map_of (messageMergeCache s) k = None"
    and ne: "evs \<noteq> []" and le: "length evs \<le> MESSAGE_MERGE_MAX_MESSAGES"
    and same: "\<forall>(p, t) \<in> set evs. \<not> isSelfMessage (prm_data p) \<and> cacheKeyOf p = k"
  shows "\<exists>p c. pipelineCalls (merge_run s (inboundEvents evs @ [WindowTimer (nextTimer s)]))
             = pipelineCalls s @ [(k, p, c)]
         \<and> prm_data p = prm_data (fst (hd evs))
         \<and> m_text c =
             (let texts = map (\<lambda>(p, t). m_text (extractMessageContent (prm_data p))) evs;
                  joined = join (ascii [CHR 0x0A, CHR 0x0A]) (filter truthy texts)
              in if truthy joined then joined else lit_merged)
         \<and> ((\<forall>(p, t) \<in> set evs. truthy (m_text (extractMessageContent (prm_data p)))) \<longrightarrow>
              m_text c = join (ascii [CHR 0x0A, CHR 0x0A])
                 (map (\<lambda>(p, t). m_text (extractMessageContent (prm_data p))) evs))"
proof -
  let ?p = "(fst (if length evs = MESSAGE_MERGE_MAX_MESSAGES then last evs else hd evs))
                    \<lparr> prm_data := prm_data (fst (hd evs)) \<rparr>"
  let ?ms = "map (\<lambda>(p, t). bufferedMessage p t) evs"
  let ?texts = "map (\<lambda>(p, t). m_text (extractMessageContent (prm_data p))) evs"
  have calls: "pipelineCalls (merge_run s (inboundEvents evs @ [WindowTimer (nextTimer s)]))
             = pipelineCalls s @ [(k, ?p, mergedContent ?ms)]"
    by (rule window_flush_once [OF nokey ne le same])
  have texts: "map (\<lambda>m. m_text (mm_content m)) ?ms = ?texts"
    by (simp add: bufferedMessage_def split_def)
  have mt: "mergedText ?ms = join (ascii [CHR 0x0A, CHR 0x0A]) (filter truthy ?texts)"
    by (simp only: mergedText_def texts)
  have t1: "m_text (mergedContent ?ms) =
             (let texts = ?texts;
                  joined = join (ascii [CHR 0x0A, CHR 0x0A]) (filter truthy texts)
              in if truthy joined then joined else lit_merged)"
    by (simp only: mergedContent_text mt Let_def)
  have t2: "m_text (mergedContent ?ms) = join (ascii [CHR 0x0A, CHR 0x0A]) ?texts"
    if all: "\<forall>(p, t) \<in> set evs. truthy (m_text (extractMessageContent (prm_data p)))"
  proof -
    from all have a: "\<forall>x \<in> set ?texts. truthy x" by auto
    then have f: "filter truthy ?texts = ?texts" by (simp only: filter_True)
    from ne have "?texts \<noteq> []" by simp
    then have "truthy (join (ascii [CHR 0x0A, CHR 0x0A]) ?texts)"
      using a by (rule join_truthy)
    then show ?thesis by (simp only: mergedContent_text mt f if_True)
  qed
  have d: "prm_data ?p = prm_data (fst (hd evs))" by simp
  from calls d t1 t2 show ?thesis by blast
qed


theorem C1_witness:
  "mergedTexts (merge_run merge_init
      (inboundEvents [(sample_text_event ''m1'' ''part one'', 0),
                      (sample_text_event ''m2'' ''part two'', 300)] @ [WindowTimer 0]))
     = [ascii ''part one'' @ ascii [CHR 0x0A, CHR 0x0A] @ ascii ''part two'']"
proof -
  let ?evs = "[(sample_text_event ''m1'' ''part one'', 0::int),
               (sample_text_event ''m2'' ''part two'', 300)]"
  let ?k = "ascii ''acc:u1:cid1''"
  have h1: "map_of (messageMergeCache merge_init) ?k = None"
    by (simp add: merge_init_def)
  have h2: "?evs \<noteq> []" by simp
  have h3: "length ?evs \<le> MESSAGE_MERGE_MAX_MESSAGES"
    by (simp add: MESSAGE_MERGE_MAX_MESSAGES_def)
  have h4: "\<forall>(p, t) \<in> set ?evs. \<not> isSelfMessage (prm_data p) \<and> cacheKeyOf p = ?k"
    by (simp add: sample_defs isSelfMessage_def cacheKeyOf_def effectiveSenderId_def
          or_else_def ascii_def)
  have t: "\<forall>(p, t) \<in> set ?evs. truthy (m_text (extractMessageContent (prm_data p)))"
    by (simp add: sample_defs content_defs)
  from C1_merge_window_invokes_pipeline_once [OF h1 h2 h3 h4] t
  obtain p c where
    "pipelineCalls (merge_run merge_init (inboundEvents ?evs @ [WindowTimer (nextTimer merge_init)]))
       = pipelineCalls merge_init @ [(?k, p, c)]"
    "m_text c = join (ascii [CHR 0x0A, CHR 0x0A])
                 (map (\<lambda>(p, t). m_text (extractMessageContent (prm_data p))) ?evs)"
    by blast
  then show ?thesis
    by (simp add: mergedTexts_def merge_init_def sample_defs content_defs)
qed

text \<open>
  As the claim states it, the merged text is the texts of all events joined by a blank
  line. A text event of blanks has the empty text; with it before an event "x" the
  pipeline receives "x" and not a blank line followed by "x", and alone it makes the
  pipeline receive the placeholder.
\<close>

theorem C1_counterexample:
  "mergedTexts (merge_run merge_init
      (inboundEvents [(sample_text_event ''m1'' ''  '', 0),
                      (sample_text_event ''m2'' ''x'', 300)] @ [WindowTimer 0]))
     = [ascii ''x'']
   \<and> mergedTexts (merge_run merge_init
      (inboundEvents [(sample_text_event ''m1'' ''  '', 0)] @ [WindowTimer 0])) = [lit_merged]
   \<and> m_text (extractMessageContent (prm_data (sample_text_event ''m1'' ''  ''))) = []
   \<and> join (ascii [CHR 0x0A, CHR 0x0A])
         (map (m_text \<circ> extractMessageContent \<circ> prm_data)
            [sample_text_event ''m1'' ''  '', sample_text_event ''m2'' ''x''])
       = ascii [CHR 0x0A, CHR 0x0A, CHR ''x'']"
  by (simp add: merge_defs sample_defs content_defs Let_def)


lemma snd_update_code:
  "\<forall>(k, v) \<in> set al. k = mf_downloadCode v \<Longrightarrow>
   \<forall>(k, v) \<in> set (AList.update (mf_downloadCode f) f al). k = mf_downloadCode v"
  by (induction al) auto

lemma foldl_update_code:
  "\<forall>(k, v) \<in> set al. k = mf_downloadCode v \<Longrightarrow>
   \<forall>(k, v) \<in> set (foldl (\<lambda>al f. AList.update (mf_downloadCode f) f al) al files).
      k = mf_downloadCode v"
proof (induction files arbitrary: al)
  case Nil
  then show ?case by simp
next
  case (Cons f fs)
  show ?case
    using Cons.IH [OF snd_update_code [OF Cons.prems, of f]] by simp
qed

lemma uniqueMediaFiles_codes:
  "map mf_downloadCode (uniqueMediaFiles files) = rev (remdups (rev (map mf_downloadCode files)))"
proof -
  let ?A = "foldl (\<lambda>al f. AList.update (mf_downloadCode f) f al) [] files"
  have "\<forall>(k, v) \<in> set ?A. k = mf_downloadCode v"
    by (rule foldl_update_code) simp
  then have "map (mf_downloadCode \<circ> snd) ?A = map fst ?A"
    by (intro map_cong) auto
  then show ?thesis
    by (simp add: uniqueMediaFiles_def foldl_update_keys)
qed

text \<open>
  Claim C3, as amended. The media list of the merged message is the list of all media
  references of the buffered messages deduplicated by download code: every code occurs
  once, the codes stand in the order of their first occurrences, and the reference kept
  for a code is the last one that carries it in arrival order.
\<close>

theorem C3_media_dedup_keeps_last_occurrence:
  "m_mediaFiles (mergedContent ms) = Some (uniqueMediaFiles (allMediaFiles ms))
   \<and> distinct (map mf_downloadCode (uniqueMediaFiles (allMediaFiles ms)))
   \<and> map mf_downloadCode (uniqueMediaFiles (allMediaFiles ms))
        = rev (remdups (rev (map mf_downloadCode (allMediaFiles ms))))
   \<and> set (uniqueMediaFiles (allMediaFiles ms))
        = {f \<in> set (allMediaFiles ms).
             find (\<lambda>g. mf_downloadCode g = mf_downloadCode f) (rev (allMediaFiles ms)) = Some f}"
proof -
  let ?all = "allMediaFiles ms"
  have a: "m_mediaFiles (mergedContent ms) = Some (uniqueMediaFiles ?all)"
    by (simp add: mergedContent_def Let_def)
  have k: "map mf_downloadCode (uniqueMediaFiles ?all) = rev (remdups (rev (map mf_downloadCode ?all)))"
    by (simp only: uniqueMediaFiles_codes)
  have d: "distinct (map mf_downloadCode (uniqueMediaFiles ?all))"
    by (simp add: k)
  from a d k uniqueMediaFiles_set [of ?all] show ?thesis by blast
qed

text \<open>
  The same picture sent twice: both references carry the download code, each is named
  after its own message, and the one kept is the second.
\<close>

theorem C3_counterexample:
  "map (m_mediaFiles \<circ> snd \<circ> snd) (pipelineCalls (merge_run merge_init
      (inboundEvents [(sample_picture_event ''m1'', 0), (sample_picture_event ''m2'', 300)]
         @ [WindowTimer 0])))
     = [Some [\<lparr> mf_downloadCode = ascii ''code1'', mf_fileName = Some (ascii ''media_m2''),
                mf_type = Image \<rparr>]]
   \<and> allMediaFiles [bufferedMessage (sample_picture_event ''m1'') 0,
                     bufferedMessage (sample_picture_event ''m2'') 300]
     = [\<lparr> mf_downloadCode = ascii ''code1'', mf_fileName = Some (ascii ''media_m1''),
          mf_type = Image \<rparr>,
        \<lparr> mf_downloadCode = ascii ''code1'', mf_fileName = Some (ascii ''media_m2''),
          mf_type = Image \<rparr>]"
  by (simp add: merge_defs sample_defs content_defs Let_def)

text \<open>
  Claim C7. When an event that is not the robot's own arrives for a key whose entry then
  reaches the maximum count, the window timer of the entry is cancelled, the entry is
  removed from the cache, and the pipeline is invoked once more, with the data of the
  first message and the content merged from all buffered messages, the new one
  included; the cancelled timer firing later changes nothing.
\<close>

theorem C7_max_count_flushes_immediately:
  assumes "\<not> isSelfMessage (prm_data p)"
    and "map_of (messageMergeCache s) (cacheKeyOf p) = Some e"
    and "length (e_messages e) + 1 \<ge> MESSAGE_MERGE_MAX_MESSAGES"
  shows "windowTimers (handleDingTalkMessage p now s) (e_timer e) = None
     \<and> map_of (messageMergeCache (handleDingTalkMessage p now s)) (cacheKeyOf p) = None
     \<and> pipelineCalls (handleDingTalkMessage p now s)
         = pipelineCalls s @ [(cacheKeyOf p, p\<lparr> prm_data := mm_data (hd (e_messages e)) \<rparr>,
                               mergedContent (e_messages e @ [bufferedMessage p now]))]
     \<and> windowTimerFires (e_timer e) (handleDingTalkMessage p now s)
         = handleDingTalkMessage p now s"
proof -
  from assms(3) obtain m ms where ms: "e_messages e = m # ms"
    by (cases "e_messages e") (auto simp: MESSAGE_MERGE_MAX_MESSAGES_def)
  let ?e = "e\<lparr> e_messages := e_messages e @ [bufferedMessage p now] \<rparr>"
  have em: "e_messages ?e = m # (ms @ [bufferedMessage p now])"
    using ms by simp
  have "handleDingTalkMessage p now s =
     (s\<lparr> windowTimers := (windowTimers s)(e_timer e := None),
         messageMergeCache := AList.delete (cacheKeyOf p) (messageMergeCache s) \<rparr>)
      \<lparr> pipelineCalls := pipelineCalls s @
          [(cacheKeyOf p, p\<lparr> prm_data := mm_data m \<rparr>,
            mergedContent (m # (ms @ [bufferedMessage p now])))] \<rparr>"
    using handle_max [OF assms, of now] invokePipeline_nonempty [OF em] by simp
  then show ?thesis
    using ms by (simp add: delete_conv' windowTimerFires_def)
qed

theorem C7_witness:
  "mergedTexts (merge_run merge_init (inboundEvents
      [(sample_text_event ''m1'' ''a'', 0), (sample_text_event ''m2'' ''b'', 100),
       (sample_text_event ''m3'' ''c'', 200), (sample_text_event ''m4'' ''d'', 300),
       (sample_text_event ''m5'' ''e'', 400)]))
     = [ascii ''a'' @ ascii [CHR 0x0A, CHR 0x0A] @ ascii ''b'' @ ascii [CHR 0x0A, CHR 0x0A]
          @ ascii ''c'' @ ascii [CHR 0x0A, CHR 0x0A] @ ascii ''d'' @ ascii [CHR 0x0A, CHR 0x0A]
          @ ascii ''e'']"
proof -
  let ?evs = "[(sample_text_event ''m1'' ''a'', 0::int), (sample_text_event ''m2'' ''b'', 100),
       (sample_text_event ''m3'' ''c'', 200), (sample_text_event ''m4'' ''d'', 300)]"
  let ?s = "merge_run merge_init (inboundEvents ?evs)"
  let ?p = "sample_text_event ''m5'' ''e''"
  let ?e = "\<lparr> e_messages = map (\<lambda>(p, t). bufferedMessage p t) ?evs, e_timer = 0,
             e_accountId = ascii ''acc'', e_senderId = ascii ''u1'', e_sessionKey = [],
             e_startTime = 0 \<rparr>"
  have h1: "\<not> isSelfMessage (prm_data ?p)"
    by (simp add: sample_defs isSelfMessage_def ascii_def)
  have h2: "map_of (messageMergeCache ?s) (cacheKeyOf ?p) = Some ?e"
    by (simp add: merge_defs sample_defs content_defs Let_def)
  have h3: "length (e_messages ?e) + 1 \<ge> MESSAGE_MERGE_MAX_MESSAGES"
    by (simp add: MESSAGE_MERGE_MAX_MESSAGES_def)
  have c: "pipelineCalls ?s = []"
    by (simp add: merge_defs sample_defs content_defs Let_def)
  have "merge_run merge_init (inboundEvents (?evs @ [(?p, 400)])) = handleDingTalkMessage ?p 400 ?s"
    by (simp add: merge_run_def inboundEvents_def)
  then show ?thesis
    using C7_max_count_flushes_immediately [OF h1 h2 h3, of 400] c
    by (simp add: mergedTexts_def mergedContent_def mergedText_def bufferedMessage_def
          sample_defs content_defs Let_def)
qed


lemma mergedText_textless:
  "m_text (mm_content m) = [] \<Longrightarrow> mergedText (ms @ [m]) = mergedText ms"
  by (simp add: mergedText_def truthy_def)

lemma dispatch_reached:
  "(DispatchReply t \<in> set (fst (processAuthorized env p c)))
     = (env_route_ok env \<and> env_record_ok env \<and> t = m_text c)"
  by (auto simp: processAuthorized_def Let_def mediaDownloads_def thinkingFeedback_def)

lemma lit_merged_truthy: "truthy lit_merged"
  by (simp add: truthy_def lit_merged_def)

text \<open>
  Claim C4, as amended. An event without extractable text that is not the robot's own is
  still added to the entry of its key, and adds nothing to the merged text. With no entry
  for the key, an entry is opened that holds the event alone, and the pipeline is not
  called. With an entry that holds fewer than four messages, the event is appended to it,
  and the pipeline is not called. With an entry that holds four messages or more, the
  entry is removed and handed to the pipeline at once, the event as its last message.
  When the text merged from an entry is empty, the content handed to the pipeline carries
  the placeholder of the source as its text, so the pipeline's test for empty text passes
  and the pipeline does what it does for any message with text: for a direct message under
  the allowlist policy whose sender is not allowed it sends the denial notice and returns,
  and makes no other call; otherwise it goes on to route resolution, and the reply is
  dispatched, with the placeholder as its text, exactly when route resolution and session
  recording both return. The pipeline returns at once, without any call and without
  error, only on a content whose text is empty.
\<close>

theorem C4_textless_event_is_buffered_and_placeholder_is_processed:
  assumes notself: "\<not> isSelfMessage (prm_data p)"
    and notext: "m_text (extractMessageContent (prm_data p)) = []"
  shows "(case map_of (messageMergeCache s) (cacheKeyOf p) of
            None \<Rightarrow>
              (\<exists>e'. map_of (messageMergeCache (handleDingTalkMessage p now s)) (cacheKeyOf p) = Some e'
                  \<and> e_messages e' = [bufferedMessage p now])
              \<and> pipelineCalls (handleDingTalkMessage p now s) = pipelineCalls s
          | Some e \<Rightarrow>
              mergedText (e_messages e @ [bufferedMessage p now]) = mergedText (e_messages e)
              \<and> (if length (e_messages e) + 1 < MESSAGE_MERGE_MAX_MESSAGES then
                   map_of (messageMergeCache (handleDingTalkMessage p now s)) (cacheKeyOf p)
                     = Some (e\<lparr> e_messages := e_messages e @ [bufferedMessage p now] \<rparr>)
                   \<and> pipelineCalls (handleDingTalkMessage p now s) = pipelineCalls s
                 else
                   map_of (messageMergeCache (handleDingTalkMessage p now s)) (cacheKeyOf p) = None
                   \<and> (\<exists>q' c. processMergedMessages
                                 (e\<lparr> e_messages := e_messages e @ [bufferedMessage p now] \<rparr>) p
                               = Inr (q', c)
                        \<and> pipelineCalls (handleDingTalkMessage p now s)
                            = pipelineCalls s @ [(cacheKeyOf p, q', c)])))
     \<and> (\<forall>entry q q' c env. processMergedMessages entry q = Inr (q', c)
            \<and> mergedText (e_messages entry) = [] \<longrightarrow>
          m_text c = lit_merged
          \<and> handleDingTalkMessageOriginal env q' (Some c)
              = (if i_conversationType (prm_data q') = ascii ''1''
                    \<and> or_else (cfg_dmPolicy (prm_dingtalkConfig q')) (ascii ''open'')
                        = ascii ''allowlist''
                    \<and> \<not> isSenderAllowed (env_toLowerCase env)
                          (normalizeAllowFrom (env_toLowerCase env)
                             (Some (case cfg_allowFrom (prm_dingtalkConfig q') of
                                      None \<Rightarrow> [] | Some l \<Rightarrow> l)))
                          (Some (effectiveSenderId (prm_data q')))
                 then ([SendBySession (prm_sessionWebhook q')
                          (denialNotice (effectiveSenderId (prm_data q')))], Returned)
                 else processAuthorized env q' c)
          \<and> (DispatchReply lit_merged \<in> set (fst (processAuthorized env q' c)))
              = (env_route_ok env \<and> env_record_ok env)
          \<and> handleDingTalkMessageOriginal env q' (Some (c\<lparr> m_text := [] \<rparr>)) = ([], Returned))"
proof -
  let ?b = "bufferedMessage p now"
  let ?k = "cacheKeyOf p"
  let ?s' = "handleDingTalkMessage p now s"
  have bt: "m_text (mm_content ?b) = []"
    using notext by (simp add: bufferedMessage_def)
  have a: "case map_of (messageMergeCache s) ?k of
            None \<Rightarrow>
              (\<exists>e'. map_of (messageMergeCache ?s') ?k = Some e' \<and> e_messages e' = [?b])
              \<and> pipelineCalls ?s' = pipelineCalls s
          | Some e \<Rightarrow>
              mergedText (e_messages e @ [?b]) = mergedText (e_messages e)
              \<and> (if length (e_messages e) + 1 < MESSAGE_MERGE_MAX_MESSAGES then
                   map_of (messageMergeCache ?s') ?k
                     = Some (e\<lparr> e_messages := e_messages e @ [?b] \<rparr>)
                   \<and> pipelineCalls ?s' = pipelineCalls s
                 else
                   map_of (messageMergeCache ?s') ?k = None
                   \<and> (\<exists>q' c. processMergedMessages (e\<lparr> e_messages := e_messages e @ [?b] \<rparr>) p
                               = Inr (q', c)
                        \<and> pipelineCalls ?s' = pipelineCalls s @ [(?k, q', c)]))"
  proof (cases "map_of (messageMergeCache s) ?k")
    case None
    then show ?thesis
      using handle_create [OF notself None, of now] by (simp add: update_conv')
  next
    case (Some e)
    have mt: "mergedText (e_messages e @ [?b]) = mergedText (e_messages e)"
      using bt by (rule mergedText_textless)
    show ?thesis
    proof (cases "length (e_messages e) + 1 < MESSAGE_MERGE_MAX_MESSAGES")
      case True
      then show ?thesis
        using handle_append [OF notself Some True, of now] Some mt by (simp add: update_conv')
    next
      case False
      then have ge: "length (e_messages e) + 1 \<ge> MESSAGE_MERGE_MAX_MESSAGES" by simp
      obtain m ms where ne: "e_messages e @ [?b] = m # ms"
        by (cases "e_messages e @ [?b]") auto
      have pm: "processMergedMessages (e\<lparr> e_messages := e_messages e @ [?b] \<rparr>) p
                  = Inr (p\<lparr> prm_data := mm_data m \<rparr>, mergedContent (m # ms))"
        using ne by (simp add: processMergedMessages_def)
      have "?s' = invokePipeline ?k (e\<lparr> e_messages := e_messages e @ [?b] \<rparr>) p
             (s\<lparr> windowTimers := (windowTimers s)(e_timer e := None),
                 messageMergeCache := AList.delete ?k (messageMergeCache s) \<rparr>)"
        using handle_max [OF notself Some ge, of now] .
      then have "?s' = (s\<lparr> windowTimers := (windowTimers s)(e_timer e := None),
                 messageMergeCache := AList.delete ?k (messageMergeCache s) \<rparr>)
                 \<lparr> pipelineCalls := pipelineCalls s @ [(?k, p\<lparr> prm_data := mm_data m \<rparr>, mergedContent (m # ms))] \<rparr>"
        using pm by (simp add: invokePipeline_def)
      then have "map_of (messageMergeCache ?s') ?k = None
           \<and> pipelineCalls ?s' = pipelineCalls s @ [(?k, p\<lparr> prm_data := mm_data m \<rparr>, mergedContent (m # ms))]"
        by (simp add: delete_conv')
      with pm Some mt False show ?thesis by simp
    qed
  qed
  have b: "m_text c = lit_merged
          \<and> handleDingTalkMessageOriginal env q' (Some c)
              = (if i_conversationType (prm_data q') = ascii ''1''
                    \<and> or_else (cfg_dmPolicy (prm_dingtalkConfig q')) (ascii ''open'')
                        = ascii ''allowlist''
                    \<and> \<not> isSenderAllowed (env_toLowerCase env)
                          (normalizeAllowFrom (env_toLowerCase env)
                             (Some (case cfg_allowFrom (prm_dingtalkConfig q') of
                                      None \<Rightarrow> [] | Some l \<Rightarrow> l)))
                          (Some (effectiveSenderId (prm_data q')))
                 then ([SendBySession (prm_sessionWebhook q')
                          (denialNotice (effectiveSenderId (prm_data q')))], Returned)
                 else processAuthorized env q' c)
          \<and> (DispatchReply lit_merged \<in> set (fst (processAuthorized env q' c)))
              = (env_route_ok env \<and> env_record_ok env)
          \<and> handleDingTalkMessageOriginal env q' (Some (c\<lparr> m_text := [] \<rparr>)) = ([], Returned)"
    if "processMergedMessages entry q = Inr (q', c)" "mergedText (e_messages entry) = []"
    for entry q q' c env
  proof -
    from that have c: "c = mergedContent (e_messages entry)"
      by (auto simp: processMergedMessages_def split: list.splits)
    with that(2) have t: "m_text c = lit_merged"
      by (simp add: mergedContent_text truthy_def)
    then have tr: "truthy (m_text c)" by (simp add: lit_merged_truthy)
    have "handleDingTalkMessageOriginal env q' (Some (c\<lparr> m_text := [] \<rparr>)) = ([], Returned)"
      by (simp add: handleDingTalkMessageOriginal_def truthy_def)
    moreover have "(DispatchReply lit_merged \<in> set (fst (processAuthorized env q' c)))
              = (env_route_ok env \<and> env_record_ok env)"
      using t by (simp add: dispatch_reached)
    ultimately show ?thesis using t tr
      by (simp add: handleDingTalkMessageOriginal_def Let_def)
  qed
  from a b show ?thesis by blast
qed

text \<open>
  A single text event of blanks in a group conversation: the merged text is the
  placeholder and the pipeline runs to the reply dispatch.
\<close>

theorem C4_counterexample:
  "mergedTexts (merge_run merge_init
      (inboundEvents [(sample_text_event ''m1'' ''  '', 0)] @ [WindowTimer 0])) = [lit_merged]
   \<and> pipelineRuns sample_env (merge_run merge_init
      (inboundEvents [(sample_text_event ''m1'' ''  '', 0)] @ [WindowTimer 0]))
     = [([ResolveAgentRoute False (ascii ''cid1''), RecordInboundSession,
          SendBySession (ascii ''hook'') lit_thinking, DispatchReply lit_merged,
          MarkDispatchIdle, CleanupSessionMedia], Returned)]"
  by (simp add: merge_defs sample_defs content_defs pipeline_defs Let_def lit_merged_def)

theorem C4_witness:
  "map (e_messages \<circ> snd)
      (messageMergeCache (handleDingTalkMessage (sample_text_event ''m1'' ''  '') 0 merge_init))
     = [[bufferedMessage (sample_text_event ''m1'' ''  '') 0]]
   \<and> m_text (mergedContent [bufferedMessage (sample_text_event ''m1'' ''  '') 0]) = lit_merged
   \<and> handleDingTalkMessageOriginal sample_env (sample_text_event ''m1'' ''  '')
         (Some (mergedContent [bufferedMessage (sample_text_event ''m1'' ''  '') 0]))
       = processAuthorized sample_env (sample_text_event ''m1'' ''  '')
           (mergedContent [bufferedMessage (sample_text_event ''m1'' ''  '') 0])
   \<and> DispatchReply lit_merged
        \<in> set (fst (processAuthorized sample_env (sample_text_event ''m1'' ''  '')
                     (mergedContent [bufferedMessage (sample_text_event ''m1'' ''  '') 0])))
   \<and> handleDingTalkMessageOriginal sample_env (sample_blank_direct_event [ascii ''boss''])
         (Some (mergedContent [bufferedMessage (sample_blank_direct_event [ascii ''boss'']) 0]))
       = ([SendBySession (ascii ''hook'') (denialNotice (ascii ''u1''))], Returned)"
proof -
  let ?p = "sample_text_event ''m1'' ''  ''"
  let ?d = "sample_blank_direct_event [ascii ''boss'']"
  let ?entry = "\<lparr> e_messages = [bufferedMessage ?p 0], e_timer = 0, e_accountId = [],
                  e_senderId = [], e_sessionKey = [], e_startTime = 0 \<rparr>"
  let ?dentry = "\<lparr> e_messages = [bufferedMessage ?d 0], e_timer = 0, e_accountId = [],
                  e_senderId = [], e_sessionKey = [], e_startTime = 0 \<rparr>"
  have h1: "\<not> isSelfMessage (prm_data ?p)"
    by (simp add: sample_defs isSelfMessage_def ascii_def)
  have h2: "m_text (extractMessageContent (prm_data ?p)) = []"
    by (simp add: sample_defs content_defs)
  have h4: "processMergedMessages ?entry ?p = Inr (?p, mergedContent [bufferedMessage ?p 0])"
    by (simp add: processMergedMessages_def bufferedMessage_def sample_defs)
  have h5: "mergedText (e_messages ?entry) = []"
    by (simp add: mergedText_def bufferedMessage_def sample_defs content_defs)
  have d4: "processMergedMessages ?dentry ?d = Inr (?d, mergedContent [bufferedMessage ?d 0])"
    by (simp add: processMergedMessages_def bufferedMessage_def sample_defs
          sample_blank_direct_event_def)
  have d5: "mergedText (e_messages ?dentry) = []"
    by (simp add: mergedText_def bufferedMessage_def sample_defs content_defs
          sample_blank_direct_event_def)
  have group: "i_conversationType (prm_data ?p) \<noteq> ascii ''1''"
    by (simp add: sample_defs ascii_def)
  have denied: "i_conversationType (prm_data ?d) = ascii ''1''
      \<and> or_else (cfg_dmPolicy (prm_dingtalkConfig ?d)) (ascii ''open'') = ascii ''allowlist''
      \<and> \<not> isSenderAllowed (env_toLowerCase sample_env)
            (normalizeAllowFrom (env_toLowerCase sample_env)
               (Some (case cfg_allowFrom (prm_dingtalkConfig ?d) of None \<Rightarrow> [] | Some l \<Rightarrow> l)))
            (Some (effectiveSenderId (prm_data ?d)))"
    by (simp add: sample_defs sample_blank_direct_event_def content_defs pipeline_defs
          effectiveSenderId_def stripChannelPrefix_def ci_prefix_def ascii_fold_def
          ascii_lower_def Let_def)
  have hook: "prm_sessionWebhook ?d = ascii ''hook'' \<and> effectiveSenderId (prm_data ?d) = ascii ''u1''"
    by (simp add: sample_defs sample_blank_direct_event_def effectiveSenderId_def or_else_def)
  have ok: "env_route_ok sample_env \<and> env_record_ok sample_env"
    by (simp add: sample_env_def)
  note inst = C4_textless_event_is_buffered_and_placeholder_is_processed [OF h1 h2, where s = merge_init and now = 0]
  have none: "map_of (messageMergeCache merge_init) (cacheKeyOf ?p) = None"
    by (simp add: merge_init_def)
  have c: "map (e_messages \<circ> snd)
      (messageMergeCache (handleDingTalkMessage ?p 0 merge_init)) = [[bufferedMessage ?p 0]]"
    by (simp add: merge_defs sample_defs content_defs Let_def)
  from inst [THEN conjunct2, rule_format, OF conjI [OF h4 h5], of sample_env]
  have g: "m_text (mergedContent [bufferedMessage ?p 0]) = lit_merged
     \<and> handleDingTalkMessageOriginal sample_env ?p (Some (mergedContent [bufferedMessage ?p 0]))
         = processAuthorized sample_env ?p (mergedContent [bufferedMessage ?p 0])
     \<and> DispatchReply lit_merged
        \<in> set (fst (processAuthorized sample_env ?p (mergedContent [bufferedMessage ?p 0])))"
    using group ok by simp
  from inst [THEN conjunct2, rule_format, OF conjI [OF d4 d5], of sample_env]
  have "handleDingTalkMessageOriginal sample_env ?d (Some (mergedContent [bufferedMessage ?d 0]))
       = ([SendBySession (prm_sessionWebhook ?d) (denialNotice (effectiveSenderId (prm_data ?d)))],
          Returned)"
    using denied by simp
  then have d: "handleDingTalkMessageOriginal sample_env ?d
         (Some (mergedContent [bufferedMessage ?d 0]))
       = ([SendBySession (ascii ''hook'') (denialNotice (ascii ''u1''))], Returned)"
    using hook by simp
  from c g d show ?thesis by simp
qed

section \<open>Authorization of direct messages\<close>

text \<open>
  Claim C8, as amended. For a direct message with text under the allowlist policy whose
  allowFrom list has at least one entry that is not blank and no wildcard entry, and
  whose sender id is empty or, lower-cased, equals none of the lower-cased entries
  (the entries, not the sender id, having their channel prefix stripped), the pipeline
  sends the denial notice containing the sender id through the session webhook and
  returns: the notice is the only call it makes.
\<close>

theorem C8_allowlist_rejection_sends_notice_and_stops:
  assumes hastext: "truthy (m_text content)"
    and direct: "i_conversationType (prm_data params) = ascii ''1''"
    and policy: "cfg_dmPolicy (prm_dingtalkConfig params) = Some (ascii ''allowlist'')"
    and es: "es = filter truthy (map trim
               (case cfg_allowFrom (prm_dingtalkConfig params) of None \<Rightarrow> [] | Some l \<Rightarrow> l))"
    and nonempty: "es \<noteq> []"
    and nowild: "ascii ''*'' \<notin> set es"
    and sender: "sender = effectiveSenderId (prm_data params)"
    and nomatch: "sender = []
       \<or> env_toLowerCase env sender \<notin> set (map (env_toLowerCase env \<circ> stripChannelPrefix) es)"
  shows "handleDingTalkMessageOriginal env params (Some content)
           = ([SendBySession (prm_sessionWebhook params)
                 (lit_denied_open @ sender @ lit_denied_close)], Returned)"
proof -
  let ?lc = "env_toLowerCase env"
  let ?allow = "normalizeAllowFrom ?lc
       (Some (case cfg_allowFrom (prm_dingtalkConfig params) of None \<Rightarrow> [] | Some l \<Rightarrow> l))"
  from nowild have f: "filter (\<lambda>v. v \<noteq> ascii ''*'') es = es"
    by (auto simp: filter_id_conv)
  have he: "hasEntries ?allow" using es nonempty
    by (simp add: normalizeAllowFrom_def Let_def)
  have hw: "\<not> hasWildcard ?allow" using es nowild
    by (simp add: normalizeAllowFrom_def Let_def)
  have el: "entriesLower ?allow = map (?lc \<circ> stripChannelPrefix) es"
    using es f by (simp add: normalizeAllowFrom_def Let_def)
  have "\<not> isSenderAllowed ?lc ?allow (Some sender)"
    using he hw el nomatch by (auto simp: isSenderAllowed_def truthy_opt_def truthy_def)
  then show ?thesis
    using hastext direct policy sender
    by (simp add: handleDingTalkMessageOriginal_def Let_def or_else_def truthy_def
          denialNotice_def ascii_def)
qed

theorem C8_witness:
  "handleDingTalkMessageOriginal sample_env
      (sample_direct_event [ascii ''dingtalk:Alice'', ascii '' bob ''])
      (Some (mergedContent
         [bufferedMessage (sample_direct_event [ascii ''dingtalk:Alice'', ascii '' bob '']) 0]))
     = ([SendBySession (ascii ''hook'') (lit_denied_open @ ascii ''u1'' @ lit_denied_close)],
        Returned)"
proof -
  let ?p = "sample_direct_event [ascii ''dingtalk:Alice'', ascii '' bob '']"
  let ?c = "mergedContent [bufferedMessage ?p 0]"
  let ?es = "[ascii ''dingtalk:Alice'', ascii ''bob'']"
  have h1: "truthy (m_text ?c)"
    by (simp add: mergedContent_text lit_merged_truthy)
  have h2: "i_conversationType (prm_data ?p) = ascii ''1''"
    by (simp add: sample_defs)
  have h3: "cfg_dmPolicy (prm_dingtalkConfig ?p) = Some (ascii ''allowlist'')"
    by (simp add: sample_defs)
  have h4: "?es = filter truthy (map trim
               (case cfg_allowFrom (prm_dingtalkConfig ?p) of None \<Rightarrow> [] | Some l \<Rightarrow> l))"
    by (simp add: sample_defs content_defs)
  have h5: "?es \<noteq> []" by simp
  have h6: "ascii ''*'' \<notin> set ?es" by (simp add: ascii_def)
  have h7: "ascii ''u1'' = effectiveSenderId (prm_data ?p)"
    by (simp add: sample_defs effectiveSenderId_def or_else_def)
  have h8: "ascii ''u1'' = []
       \<or> env_toLowerCase sample_env (ascii ''u1'')
            \<notin> set (map (env_toLowerCase sample_env \<circ> stripChannelPrefix) ?es)"
    by (simp add: sample_env_def ascii_lower_def ascii_fold_def stripChannelPrefix_def
          ci_prefix_def ascii_def)
  show ?thesis
    using C8_allowlist_rejection_sends_notice_and_stops [OF h1 h2 h3 h4 h5 h6 h7 h8]
    by (simp add: sample_defs)
qed

text \<open>
  Under the allowlist policy with an empty allowFrom list the sender matches no entry
  and no wildcard, and the message is processed up to the reply dispatch.
\<close>

theorem C8_counterexample:
  "pipelineRuns sample_env (merge_run merge_init
      (inboundEvents [(sample_direct_event [], 0)] @ [WindowTimer 0]))
     = [([ResolveAgentRoute True (ascii ''u1''), RecordInboundSession,
          SendBySession (ascii ''hook'') lit_thinking, DispatchReply (ascii ''hi''),
          MarkDispatchIdle, CleanupSessionMedia], Returned)]"
  by (simp add: merge_defs sample_defs content_defs pipeline_defs Let_def
       )

section \<open>The retry loop\<close>

lemma retryFrom_stops:
  assumes "attempt \<le> k" "k \<le> maxRetries"
    and "\<forall>i. attempt \<le> i \<and> i < k \<longrightarrow> (\<exists>e. fn i = Inl e \<and> isRetryable e)"
    and "(\<exists>v. fn k = Inr v) \<or> (\<exists>e. fn k = Inl e \<and> \<not> isRetryable e) \<or> k = maxRetries"
  shows "retryFrom maxRetries fn attempt = (fn k, k)"
  using assms
proof (induction maxRetries fn attempt rule: retryFrom.induct)
  case (1 maxRetries fn attempt)
  show ?case
  proof (cases "attempt = k")
    case True
    with "1.prems" show ?thesis
      by (subst retryFrom.simps) (auto split: sum.splits)
  next
    case False
    with "1.prems" have lt: "attempt < k" by simp
    with "1.prems" obtain e where e: "fn attempt = Inl e" "isRetryable e" by blast
    from lt "1.prems" have nm: "attempt \<noteq> maxRetries" "attempt \<le> maxRetries" by simp_all
    have "retryFrom maxRetries fn (attempt + 1) = (fn k, k)"
      using "1.IH" [OF nm(2) e(1)] e(2) nm(1) lt "1.prems" by auto
    then show ?thesis
      using e nm by (subst retryFrom.simps) simp
  qed
qed

lemma retryFrom_result:
  assumes "attempt \<le> maxRetries"
  shows "\<exists>k. attempt \<le> k \<and> k \<le> maxRetries \<and> retryFrom maxRetries fn attempt = (fn k, k)
           \<and> (\<forall>i. attempt \<le> i \<and> i < k \<longrightarrow> (\<exists>e. fn i = Inl e \<and> isRetryable e))"
  using assms
proof (induction maxRetries fn attempt rule: retryFrom.induct)
  case (1 maxRetries fn attempt)
  show ?case
  proof (cases "fn attempt")
    case (Inr v)
    then have "retryFrom maxRetries fn attempt = (fn attempt, attempt)"
      using "1.prems" by (subst retryFrom.simps) simp
    with "1.prems" show ?thesis by (intro exI [of _ attempt]) auto
  next
    case (Inl err)
    show ?thesis
    proof (cases "\<not> isRetryable err \<or> attempt = maxRetries")
      case True
      then have "retryFrom maxRetries fn attempt = (fn attempt, attempt)"
        using "1.prems" Inl by (subst retryFrom.simps) auto
      with "1.prems" show ?thesis by (intro exI [of _ attempt]) auto
    next
      case False
      then have nm: "attempt + 1 \<le> maxRetries" using "1.prems" by simp
      from "1.IH" [OF "1.prems" Inl False nm]
      obtain k where k: "attempt + 1 \<le> k" "k \<le> maxRetries"
        "retryFrom maxRetries fn (attempt + 1) = (fn k, k)"
        "\<forall>i. attempt + 1 \<le> i \<and> i < k \<longrightarrow> (\<exists>e. fn i = Inl e \<and> isRetryable e)"
        by blast
      have "retryFrom maxRetries fn attempt = (fn k, k)"
        using k(3) Inl False "1.prems" by (subst retryFrom.simps) simp
      moreover have "\<forall>i. attempt \<le> i \<and> i < k \<longrightarrow> (\<exists>e. fn i = Inl e \<and> isRetryable e)"
      proof (intro allI impI)
        fix i assume i: "attempt \<le> i \<and> i < k"
        show "\<exists>e. fn i = Inl e \<and> isRetryable e"
        proof (cases "i = attempt")
          case True
          then show ?thesis using Inl False by simp
        next
          case False
          with i have "attempt + 1 \<le> i \<and> i < k" by simp
          with k(4) show ?thesis by blast
        qed
      qed
      ultimately show ?thesis using k(1,2) by (intro exI [of _ k]) simp
    qed
  qed
qed



section \<open>The token cache and card updates\<close>





lemma isRetryable_terminal: "isTerminalStatus err \<Longrightarrow> \<not> isRetryable err"
  by (auto simp: isTerminalStatus_def isRetryable_def split: option.splits)

lemma getAccessToken_registry:
  "getAccessToken post now s = (r, s1, n) \<Longrightarrow> cardInstances s1 = cardInstances s"
  by (auto simp: getAccessToken_def split: if_splits prod.splits sum.splits)

text \<open>
  Claim C5, as amended. A card update first fetches the access token and then sends the
  update request through the retry helper with a bound of three attempts. When the token
  fetch fails, whatever its status, the update makes no request, passes that error on and
  leaves the registry of cards as it was. When the token fetch succeeds and a request
  fails with status 404, 410 or 403, after any number of requests that failed with a
  status that is retried, no further request is made, the error is passed on, and the
  registry afterwards is the registry before with the instance of that card deleted and
  every other instance kept. When the token fetch succeeds and every request fails with
  status 500, exactly three requests are made, then the error is passed on and the
  registry is unchanged. No card update makes more than three requests.
\<close>

theorem C5_card_update_failures:
  "(case getAccessToken post now s of
      (Inl err, s1, n) \<Rightarrow>
        updateInteractiveCard post put now settled cardBizId content s = (Inl err, s1, n, 0)
        \<and> cardInstances s1 = cardInstances s
    | (Inr token, s1, n) \<Rightarrow>
        (\<forall>k err. 1 \<le> k \<and> k \<le> 3
            \<and> (\<forall>i. 1 \<le> i \<and> i < k \<longrightarrow> (\<exists>e. put cardBizId content i = Inl e \<and> isRetryable e))
            \<and> put cardBizId content k = Inl err \<and> isTerminalStatus err \<longrightarrow>
          updateInteractiveCard post put now settled cardBizId content s
            = (Inl err, s1\<lparr> cardInstances := AList.delete cardBizId (cardInstances s) \<rparr>, n, k))
        \<and> ((\<forall>i. put cardBizId content i = Inl (HttpError 500)) \<longrightarrow>
              updateInteractiveCard post put now settled cardBizId content s
                = (Inl (HttpError 500), s1, n, 3)
              \<and> cardInstances s1 = cardInstances s))
   \<and> snd (snd (snd (updateInteractiveCard post put now settled cardBizId content s))) \<le> 3"
proof -
  obtain r s1 n where g: "getAccessToken post now s = (r, s1, n)"
    by (cases "getAccessToken post now s") auto
  have reg: "cardInstances s1 = cardInstances s"
    using g by (rule getAccessToken_registry)
  from retryFrom_result [of 1 3 "put cardBizId content"]
  obtain m where m: "m \<le> 3" "retryFrom 3 (put cardBizId content) 1 = (put cardBizId content m, m)"
    by auto
  have bound: "snd (snd (snd (updateInteractiveCard post put now settled cardBizId content s))) \<le> 3"
    using g m by (cases r) (simp_all add: updateInteractiveCard_def retryWithBackoff_def)
  show ?thesis
  proof (cases r)
    case (Inl err)
    with g reg bound show ?thesis
      by (simp add: updateInteractiveCard_def)
  next
    case (Inr token)
    have terminal: "updateInteractiveCard post put now settled cardBizId content s
            = (Inl err, s1\<lparr> cardInstances := AList.delete cardBizId (cardInstances s) \<rparr>, n, k)"
      if a: "1 \<le> k \<and> k \<le> 3
            \<and> (\<forall>i. 1 \<le> i \<and> i < k \<longrightarrow> (\<exists>e. put cardBizId content i = Inl e \<and> isRetryable e))
            \<and> put cardBizId content k = Inl err \<and> isTerminalStatus err" for k err
    proof -
      from a have nr: "\<not> isRetryable err" by (simp add: isRetryable_terminal)
      have "retryFrom 3 (put cardBizId content) 1 = (put cardBizId content k, k)"
        using a nr by (intro retryFrom_stops) auto
      then show ?thesis
        using g Inr a reg
        by (simp add: updateInteractiveCard_def retryWithBackoff_def recordUpdateOutcome_def)
    qed
    have five: "updateInteractiveCard post put now settled cardBizId content s
                = (Inl (HttpError 500), s1, n, 3)"
      if a: "\<forall>i. put cardBizId content i = Inl (HttpError 500)"
    proof -
      have "retryFrom 3 (put cardBizId content) 1 = (put cardBizId content 3, 3)"
        using a by (intro retryFrom_stops) (auto simp: isRetryable_def statusCode_def)
      then show ?thesis
        using g Inr a
        by (simp add: updateInteractiveCard_def retryWithBackoff_def recordUpdateOutcome_def
              isTerminalStatus_def statusCode_def)
    qed
    from terminal five reg bound show ?thesis
      unfolding g Inr by simp
  qed
qed

text \<open>
  The claim as first worded speaks of any card update that fails with status 404. An
  update whose token fetch is refused with status 404 fails with that status and keeps the
  card: the token is fetched before the part of the function that evicts the card.
\<close>

theorem C5_counterexample:
  "updateInteractiveCard (sample_rejecting_endpoint 404) (sample_update_endpoint [])
      1000 1500 (ascii ''card1'') (ascii ''hello'') sample_registry_without_token
     = (Inl (HttpError 404), sample_registry_without_token, 1, 0)
   \<and> map (ci_cardBizId \<circ> snd) (cardInstances sample_registry_without_token) = [ascii ''card1'']"
  by (simp add: updateInteractiveCard_def getAccessToken_def retry_eval
        sample_rejecting_endpoint_def sample_registry_without_token_def sample_registry_def
        truthy_opt_def)

theorem C5_witness:
  "updateInteractiveCard (sample_token_endpoint 0) (sample_update_endpoint [500, 404])
      1000 1500 (ascii ''card1'') (ascii ''hello'') sample_registry
     = (Inl (HttpError 404), sample_registry\<lparr> cardInstances := [] \<rparr>, 0, 2)
   \<and> updateInteractiveCard (sample_token_endpoint 0) (sample_failing_update 500)
      1000 1500 (ascii ''card1'') (ascii ''hello'') sample_registry
     = (Inl (HttpError 500), sample_registry, 0, 3)
   \<and> updateInteractiveCard (sample_rejecting_endpoint 403) (sample_update_endpoint [])
      1000 1500 (ascii ''card1'') (ascii ''hello'') sample_registry_without_token
     = (Inl (HttpError 403), sample_registry_without_token, 1, 0)"
proof -
  let ?post = "sample_token_endpoint 0"
  let ?put = "sample_update_endpoint [500, 404]"
  let ?put5 = "sample_failing_update 500"
  let ?c = "ascii ''card1''"
  let ?t = "ascii ''hello''"
  have tok: "getAccessToken ?post 1000 sample_registry = (Inr (ascii ''tok''), sample_registry, 0)"
    by (simp add: getAccessToken_def sample_registry_def truthy_opt_def truthy_def ascii_def)
  have k: "1 \<le> (2::nat) \<and> (2::nat) \<le> 3
            \<and> (\<forall>i. 1 \<le> i \<and> i < 2 \<longrightarrow> (\<exists>e. ?put ?c ?t i = Inl e \<and> isRetryable e))
            \<and> ?put ?c ?t 2 = Inl (HttpError 404) \<and> isTerminalStatus (HttpError 404)"
    by (auto simp: sample_update_endpoint_def isRetryable_def isTerminalStatus_def statusCode_def
          less_Suc_eq numeral_2_eq_2)
  have del: "AList.delete ?c (cardInstances sample_registry) = []"
    by (simp add: sample_registry_def AList.delete_eq)
  have a: "updateInteractiveCard ?post ?put 1000 1500 ?c ?t sample_registry
       = (Inl (HttpError 404), sample_registry\<lparr> cardInstances := [] \<rparr>, 0, 2)"
    using C5_card_update_failures [where post = ?post and now = 1000 and s = sample_registry
        and put = ?put and settled = 1500 and cardBizId = ?c and content = ?t] k
    unfolding tok by (simp add: del)
  have all5: "\<forall>i. ?put5 ?c ?t i = Inl (HttpError 500)"
    by (simp add: sample_failing_update_def)
  have b: "updateInteractiveCard ?post ?put5 1000 1500 ?c ?t sample_registry
       = (Inl (HttpError 500), sample_registry, 0, 3)"
    using C5_card_update_failures [where post = ?post and now = 1000 and s = sample_registry
        and put = ?put5 and settled = 1500 and cardBizId = ?c and content = ?t] all5
    unfolding tok by simp
  have tokfail: "getAccessToken (sample_rejecting_endpoint 403) 1000 sample_registry_without_token
       = (Inl (HttpError 403), sample_registry_without_token, 1)"
    by (simp add: getAccessToken_def retry_eval sample_rejecting_endpoint_def
          sample_registry_without_token_def truthy_opt_def)
  have c: "updateInteractiveCard (sample_rejecting_endpoint 403) (sample_update_endpoint [])
      1000 1500 ?c ?t sample_registry_without_token
     = (Inl (HttpError 403), sample_registry_without_token, 1, 0)"
    using C5_card_update_failures [where post = "sample_rejecting_endpoint 403" and now = 1000
        and s = sample_registry_without_token and put = "sample_update_endpoint []"
        and settled = 1500 and cardBizId = ?c and content = ?t]
    unfolding tokfail by simp
  from a b c show ?thesis by simp
qed

section \<open>Throttled requests\<close>



section \<open>Promises and their holders\<close>























































section \<open>The card update throttle: superseded requests\<close>




section \<open>The card update throttle: bursts\<close>























lemma callsFor_startUpdate:
  "callsFor c (startUpdate c' t now p s)
     = callsFor c s @ (if c' = c then [(now, c', t)] else [])"
  by (simp add: callsFor_def startUpdate_def)






















end
